theory Spec2Isabelle
  imports Complex_Main "HOL-Library.Word"
begin

unbundle bit_operations_syntax

section \<open>Conventions of the embedding\<close>

text \<open>
  The development follows \<^verbatim>\<open>vcfsom.c\<close>. C \<^verbatim>\<open>double\<close> values are idealised as
  \<^typ>\<open>real\<close> (no rounding), except in the capacities of the two reservoirs, where the
  conversion to \<^verbatim>\<open>int\<close> makes the rounding of each operation visible; the sentinel \<^verbatim>\<open>HUGE_VAL\<close>, which the reader never lets
  through as a data value, is a constructor of its own. C \<^verbatim>\<open>int\<close> values that are
  used as bit masks are \<^typ>\<open>32 word\<close>; sizes and loop counters, which the code only
  counts upwards from zero, are \<^typ>\<open>nat\<close>; other \<^verbatim>\<open>int\<close> values are \<^typ>\<open>int\<close>.
  Arrays are lists, a pointer into an array is an offset.
\<close>

datatype error =
    AssertFailed
  | CouldNotParseFilter
  | NoSuchAnnotation
  | TooManyHardFilters nat

text \<open>Conversion of a \<^verbatim>\<open>double\<close> to \<^verbatim>\<open>int\<close> truncates towards zero.\<close>

definition c_trunc :: "real \<Rightarrow> int" where
  "c_trunc x = (if 0 \<le> x then \<lfloor>x\<rfloor> else \<lceil>x\<rceil>)"

text \<open>The remainder of C's \<^verbatim>\<open>%\<close> has the sign of the dividend.\<close>

definition c_rem :: "int \<Rightarrow> int \<Rightarrow> int" where
  "c_rem a b = sgn a * (\<bar>a\<bar> mod \<bar>b\<bar>)"

section \<open>The goodness bit of a row\<close>

text \<open>
  \<^verbatim>\<open>parse_mask\<close> (the \<^verbatim>\<open>-g\<close> option and its default \<^verbatim>\<open>"010"\<close>): character \<open>i\<close> of
  the string sets bit \<open>i\<close> of the mask.
\<close>

fun parse_mask_loop :: "string \<Rightarrow> nat \<Rightarrow> 32 word \<Rightarrow> 32 word" where
  "parse_mask_loop [] i msk = msk"
| "parse_mask_loop (ch # str) i msk =
     parse_mask_loop str (Suc i) (if ch = CHR ''1'' then msk OR push_bit i 1 else msk)"

definition parse_mask :: "string \<Rightarrow> 32 word" where
  "parse_mask str = parse_mask_loop str 0 0"

text \<open>
  \<^verbatim>\<open>str_mask_set\<close>: the scan stops at the first character that is neither \<^verbatim>\<open>'0'\<close> nor
  \<^verbatim>\<open>'1'\<close> (the tab after the MASK column). The test is \<^verbatim>\<open>mask & i<<1\<close>, and in C the
  shift binds tighter than \<^verbatim>\<open>&\<close>: it is \<^verbatim>\<open>mask & (i<<1)\<close>.
\<close>

fun str_mask_set_loop :: "string \<Rightarrow> nat \<Rightarrow> 32 word \<Rightarrow> int" where
  "str_mask_set_loop [] i msk = 0"
| "str_mask_set_loop (ch # str) i msk =
     (if ch = CHR ''0'' \<or> ch = CHR ''1'' then
        (if ch = CHR ''1'' \<and> msk AND push_bit 1 (of_nat i) \<noteq> 0 then 1
         else str_mask_set_loop str (Suc i) msk)
      else 0)"

definition str_mask_set :: "string \<Rightarrow> 32 word \<Rightarrow> int" where
  "str_mask_set str msk = str_mask_set_loop str 0 msk"

text \<open>The MASK field of \<^verbatim>\<open>annots_reader_next\<close>, and the macro \<^verbatim>\<open>IS_GOOD\<close>.\<close>

definition annots_reader_next_mask :: "32 word \<Rightarrow> string \<Rightarrow> int" where
  "annots_reader_next_mask good_mask str =
     (if good_mask \<noteq> 0 then 1 + str_mask_set str good_mask else 1)"

definition MASK_GOOD :: int where
  "MASK_GOOD = 2"

definition IS_GOOD :: "int \<Rightarrow> bool" where
  "IS_GOOD m = (m AND MASK_GOOD \<noteq> 0)"

text \<open>
  The rule in the words of the specification: some position of the mask string that
  \<open>good_mask\<close> selects carries a \<^verbatim>\<open>'1'\<close>.
\<close>

definition selected_bit_set :: "string \<Rightarrow> 32 word \<Rightarrow> bool" where
  "selected_bit_set str good_mask =
     list_ex (\<lambda>i. str ! i = CHR ''1'' \<and> bit good_mask i) [0..<length str]"

section \<open>Variant classes\<close>

text \<open>
  \<^verbatim>\<open>determine_variant_class\<close>. The macro \<^verbatim>\<open>bcf_acgt2int\<close> and the function
  \<^verbatim>\<open>indel_ctx_type\<close> are not part of this file: the first is a parameter, the second is
  represented by what it returns for the site, \<open>(ndel, nrep, nlen)\<close>; \<open>None\<close> stands for
  \<^verbatim>\<open>args->indel_ctx == NULL\<close>. \<^verbatim>\<open>abs\<close> is the C library's, so \<open>ndel\<close> is taken above
  \<^verbatim>\<open>INT_MIN\<close>.
\<close>

definition first_char :: "string \<Rightarrow> char" where
  "first_char s = (case s of [] \<Rightarrow> CHR 0x00 | ch # _ \<Rightarrow> ch)"

definition determine_variant_class ::
  "(char \<Rightarrow> int) \<Rightarrow> bool \<Rightarrow> string \<Rightarrow> string \<Rightarrow> (int \<times> int \<times> int) option \<Rightarrow> int" where
  "determine_variant_class bcf_acgt2int is_snp ref alt indel_ctx =
     (if is_snp then
        (if \<bar>bcf_acgt2int (first_char ref) - bcf_acgt2int (first_char alt)\<bar> = 2 then 1 else 0)
      else
        (case indel_ctx of
           None \<Rightarrow> 2
         | Some (ndel, nrep, nlen) \<Rightarrow>
             if nlen \<le> 1 \<or> nrep \<le> 1 then 2
             else if c_rem \<bar>ndel\<bar> nlen \<noteq> 0 then 0
             else 1))"

section \<open>The self-organising map\<close>

text \<open>
  A \<^verbatim>\<open>double\<close> variable that starts at \<^verbatim>\<open>HUGE_VAL\<close> (positive infinity): the sentinel
  or a finite value. \<open>xd_less\<close> is \<^verbatim>\<open><\<close> on such values.
\<close>

datatype xdouble = Fin real | HUGE_VAL

fun xd_less :: "xdouble \<Rightarrow> xdouble \<Rightarrow> bool" where
  "xd_less (Fin a) (Fin b) = (a < b)"
| "xd_less (Fin a) HUGE_VAL = True"
| "xd_less HUGE_VAL b = False"

text \<open>Division of such a value by a positive finite one.\<close>

fun xd_div :: "xdouble \<Rightarrow> real \<Rightarrow> xdouble" where
  "xd_div (Fin a) b = Fin (a / b)"
| "xd_div HUGE_VAL b = HUGE_VAL"

text \<open>
  \<^verbatim>\<open>som_t\<close>. The field \<^verbatim>\<open>t\<close> is \<open>som_tcur\<close>. The weights \<^verbatim>\<open>w\<close> hold
  \<open>nsom * nbin * nbin\<close> prototypes of \<open>kdim\<close> values each, map after map, row-major; the
  counts \<^verbatim>\<open>c\<close> hold one value per prototype in the same order.
\<close>

record som_t =
  som_nsom :: nat
  som_nbin :: nat
  som_kdim :: nat
  som_nt :: int
  som_tcur :: "nat list"
  som_w :: "real list"
  som_c :: "real list"
  som_learn :: real
  som_th :: real

text \<open>
  The C library's generator: the state is the stream of the values that the coming calls
  of \<^verbatim>\<open>random()\<close> return. \<^verbatim>\<open>RAND_MAX\<close> and \<^verbatim>\<open>srandom\<close> are parameters of the functions
  that use them.
\<close>

type_synonym prng = "nat \<Rightarrow> nat"

definition random :: "prng \<Rightarrow> nat \<times> prng" where
  "random g = (g 0, \<lambda>n. g (Suc n))"

text \<open>
  The inner loop of \<^verbatim>\<open>som_train\<close> and \<^verbatim>\<open>som_calc_dist\<close>: the squared distance of
  \<open>vec\<close> to the prototype that starts at offset \<open>ptr\<close>.
\<close>

definition sq_dist :: "nat \<Rightarrow> real list \<Rightarrow> real list \<Rightarrow> nat \<Rightarrow> real" where
  "sq_dist kdim vec w ptr =
     fold (\<lambda>k dist. dist + (vec ! k - w ! (ptr + k)) * (vec ! k - w ! (ptr + k))) [0..<kdim] 0"

text \<open>\<^verbatim>\<open>som_train\<close>, the search for the best matching unit: the state is
  \<open>(min_dist, imin, jmin, ptr)\<close>.\<close>

definition bmu_cell ::
  "nat \<Rightarrow> real list \<Rightarrow> real list \<Rightarrow> nat \<Rightarrow> nat \<Rightarrow> xdouble \<times> nat \<times> nat \<times> nat
     \<Rightarrow> xdouble \<times> nat \<times> nat \<times> nat" where
  "bmu_cell kdim vec w i j st =
     (case st of (min_dist, imin, jmin, ptr) \<Rightarrow>
        let dist = sq_dist kdim vec w ptr in
        if xd_less (Fin dist) min_dist then (Fin dist, i, j, ptr + kdim)
        else (min_dist, imin, jmin, ptr + kdim))"

definition find_bmu :: "som_t \<Rightarrow> real list \<Rightarrow> nat \<Rightarrow> nat \<times> nat" where
  "find_bmu som vec jsom =
     (case fold (\<lambda>i. fold (bmu_cell (som_kdim som) vec (som_w som) i) [0..<som_nbin som])
             [0..<som_nbin som]
             (HUGE_VAL, 0, 0, jsom * som_nbin som * som_nbin som * som_kdim som) of
        (min_dist, imin, jmin, ptr) \<Rightarrow> (imin, jmin))"

text \<open>\<^verbatim>\<open>som_train\<close>, the update of one cell: the state is \<open>(w, c, ptr, cnt)\<close>.\<close>

definition grid_dist :: "nat \<Rightarrow> nat \<Rightarrow> nat \<Rightarrow> nat \<Rightarrow> real" where
  "grid_dist i j imin jmin =
     real_of_int ((int i - int imin) * (int i - int imin) + (int j - int jmin) * (int j - int jmin))"

definition move_weights :: "nat \<Rightarrow> real list \<Rightarrow> real \<Rightarrow> nat \<Rightarrow> real list \<Rightarrow> real list" where
  "move_weights kdim vec influence ptr w =
     fold (\<lambda>k w. w[ptr + k := w ! (ptr + k) + influence * (vec ! k - w ! (ptr + k))]) [0..<kdim] w"

definition update_cell ::
  "nat \<Rightarrow> real list \<Rightarrow> nat \<Rightarrow> nat \<Rightarrow> real \<Rightarrow> real \<Rightarrow> nat \<Rightarrow> nat
     \<Rightarrow> real list \<times> real list \<times> nat \<times> nat \<Rightarrow> real list \<times> real list \<times> nat \<times> nat" where
  "update_cell kdim vec imin jmin radius learning_rate i j st =
     (case st of (w, c, ptr, cnt) \<Rightarrow>
        let dist = grid_dist i j imin jmin in
        if dist \<le> radius then
          let influence = exp (- dist * dist * 0.5 / radius) * learning_rate in
          (move_weights kdim vec influence ptr w, c[cnt := c ! cnt + influence], ptr + kdim, cnt + 1)
        else (w, c, ptr + kdim, cnt + 1))"

text \<open>
  \<^verbatim>\<open>som_train\<close>. \<^verbatim>\<open>random()\<close> is called only when \<open>nsom \<noteq> 1\<close>. The search starts at
  \<^verbatim>\<open>som->w + jsom*nbin*nbin*kdim\<close> and the counts at \<^verbatim>\<open>som->c + jsom*nbin*nbin\<close>; the
  update loop resets \<^verbatim>\<open>ptr = som->w\<close>.
\<close>

definition select_map :: "nat \<Rightarrow> som_t \<Rightarrow> prng \<Rightarrow> int \<times> prng" where
  "select_map RAND_MAX som g =
     (if som_nsom som = 1 then (0, g)
      else case random g of (r, g') \<Rightarrow>
        (c_trunc (real (som_nsom som) * real r / real RAND_MAX), g'))"

definition som_train :: "nat \<Rightarrow> som_t \<Rightarrow> real list \<Rightarrow> prng \<Rightarrow> error + som_t \<times> prng" where
  "som_train RAND_MAX som vec g =
     (case select_map RAND_MAX som g of (jsom_int, g') \<Rightarrow>
      if jsom_int < int (som_nsom som) then
        let jsom = nat jsom_int;
            nbin = som_nbin som;
            (imin, jmin) = find_bmu som vec jsom;
            t = real (som_tcur som ! jsom * som_nsom som);
            tcur' = (som_tcur som)[jsom := som_tcur som ! jsom + 1];
            radius0 = real nbin * exp (- t / real_of_int (som_nt som));
            radius = radius0 * radius0;
            learning_rate = som_learn som * exp (- t / real_of_int (som_nt som))
        in case fold (\<lambda>i. fold (update_cell (som_kdim som) vec imin jmin radius learning_rate i)
                               [0..<nbin])
                  [0..<nbin] (som_w som, som_c som, 0, jsom * nbin * nbin) of
             (w', c', ptr, cnt) \<Rightarrow> Inr (som\<lparr>som_tcur := tcur', som_w := w', som_c := c'\<rparr>, g')
      else Inl AssertFailed)"

text \<open>\<^verbatim>\<open>som_calc_dist\<close>: the state of the loops is \<open>(min_dist, cnt, ptr)\<close>, and \<open>cnt\<close> and
  \<open>ptr\<close> run on from one map to the next.\<close>

definition calc_cell ::
  "nat \<Rightarrow> real \<Rightarrow> real list \<Rightarrow> real list \<Rightarrow> real list \<Rightarrow> xdouble \<times> nat \<times> nat
     \<Rightarrow> xdouble \<times> nat \<times> nat" where
  "calc_cell kdim th vec w c st =
     (case st of (min_dist, cnt, ptr) \<Rightarrow>
        (if th \<le> c ! cnt then
           (let dist = sq_dist kdim vec w ptr in
            if xd_less (Fin dist) min_dist then Fin dist else min_dist)
         else min_dist,
         cnt + 1, ptr + kdim))"

definition calc_map :: "som_t \<Rightarrow> real list \<Rightarrow> xdouble \<times> nat \<times> nat \<Rightarrow> xdouble \<times> nat \<times> nat" where
  "calc_map som vec st =
     (case st of (min_som_dist, cnt, ptr) \<Rightarrow>
        case fold (\<lambda>i. fold (\<lambda>j. calc_cell (som_kdim som) (som_th som) vec (som_w som) (som_c som))
                          [0..<som_nbin som])
               [0..<som_nbin som] (HUGE_VAL, cnt, ptr) of
          (min_dist, cnt', ptr') \<Rightarrow>
            (if xd_less min_dist min_som_dist then min_dist else min_som_dist, cnt', ptr'))"

definition som_calc_dist :: "som_t \<Rightarrow> real list \<Rightarrow> xdouble" where
  "som_calc_dist som vec =
     (case fold (\<lambda>js. calc_map som vec) [0..<som_nsom som] (HUGE_VAL, 0, 0) of
        (min_som_dist, cnt, ptr) \<Rightarrow> min_som_dist)"

text \<open>
  \<^verbatim>\<open>som_norm\<close>. For map \<open>j\<close> the pointer \<^verbatim>\<open>c\<close> is \<^verbatim>\<open>som->c + j*n2\<close>; the search for the
  maximum compares with \<^verbatim>\<open>som->c[i]\<close> and stores \<^verbatim>\<open>c[i]\<close>.
\<close>

definition som_norm_max :: "nat \<Rightarrow> nat \<Rightarrow> real list \<Rightarrow> real" where
  "som_norm_max n2 j c =
     fold (\<lambda>i mx. if mx < c ! i then c ! (j * n2 + i) else mx) [0..<n2] 0"

definition som_norm_map :: "nat \<Rightarrow> nat \<Rightarrow> real list \<Rightarrow> real list" where
  "som_norm_map n2 j c =
     (let mx = som_norm_max n2 j c in
      if mx \<noteq> 0 then fold (\<lambda>i c. c[j * n2 + i := c ! (j * n2 + i) / mx]) [0..<n2] c
      else c)"

definition som_norm :: "som_t \<Rightarrow> som_t" where
  "som_norm som =
     som\<lparr>som_c := fold (som_norm_map (som_nbin som * som_nbin som)) [0..<som_nsom som] (som_c som)\<rparr>"

text \<open>
  \<^verbatim>\<open>som_init1\<close>: \<open>ngood\<close> is \<^verbatim>\<open>args->ngood\<close>. The weights come from \<^verbatim>\<open>malloc\<close> and are
  all written by \<^verbatim>\<open>som_init_rand\<close> before they are read; they start as zeros here.
\<close>

definition som_init1 :: "int \<Rightarrow> nat \<Rightarrow> som_t \<Rightarrow> som_t" where
  "som_init1 ngood kdim template =
     (let som = template\<lparr>
            som_kdim := kdim,
            som_tcur := replicate (som_nsom template) 0,
            som_w := replicate (kdim * som_nbin template * som_nbin template * som_nsom template) 0,
            som_c := replicate (som_nbin template * som_nbin template * som_nsom template) 0\<rparr>
      in if som_nt som = 0 \<or> ngood < som_nt som then som\<lparr>som_nt := ngood\<rparr> else som)"

text \<open>\<^verbatim>\<open>som_init_rand\<close>: \<^verbatim>\<open>srandom(seed)\<close> when the seed is not negative, then one draw per
  weight.\<close>

definition som_init_rand :: "nat \<Rightarrow> (int \<Rightarrow> prng) \<Rightarrow> som_t \<Rightarrow> int \<Rightarrow> prng \<Rightarrow> som_t \<times> prng" where
  "som_init_rand RAND_MAX srandom som seed g =
     (let g0 = (if 0 \<le> seed then srandom seed else g);
          n3 = som_nbin som * som_nbin som * som_kdim som * som_nsom som
      in case fold (\<lambda>i (w, g). case random g of (r, g') \<Rightarrow> (w[i := real r / real RAND_MAX], g'))
                [0..<n3] (som_w som, g0) of
           (w', g') \<Rightarrow> (som\<lparr>som_w := w'\<rparr>, g'))"

text \<open>
  The head of \<^verbatim>\<open>som_init\<close>, up to the sampling pass: the map and the capacities of the
  two reservoirs, \<^verbatim>\<open>ngood_fixed_max\<close> and \<^verbatim>\<open>ngood_learn_max\<close>.
\<close>

text \<open>
  \<^verbatim>\<open>int ngood_fixed_max = good_som->nt * (1-args->nt_learn_frac)\<close> and
  \<^verbatim>\<open>int ngood_learn_max = good_som->nt * args->nt_learn_frac\<close>: \<open>nt\<close> is converted to
  \<^verbatim>\<open>double\<close> (exactly), the subtraction and the product are \<^verbatim>\<open>double\<close> operations, each
  rounded, and the result is truncated. The rounding of a \<^verbatim>\<open>double\<close> operation belongs to
  the machine's arithmetic and is the parameter \<open>rnd\<close>.
\<close>

definition ngood_fixed_max :: "(real \<Rightarrow> real) \<Rightarrow> som_t \<Rightarrow> real \<Rightarrow> int" where
  "ngood_fixed_max rnd good_som nt_learn_frac =
     c_trunc (rnd (real_of_int (som_nt good_som) * rnd (1 - nt_learn_frac)))"

definition ngood_learn_max :: "(real \<Rightarrow> real) \<Rightarrow> som_t \<Rightarrow> real \<Rightarrow> int" where
  "ngood_learn_max rnd good_som nt_learn_frac =
     c_trunc (rnd (real_of_int (som_nt good_som) * nt_learn_frac))"

text \<open>
  The rounding of IEEE 754 binary64, to nearest with ties to even, for magnitudes below
  \<open>2\<^sup>1\<^sup>0\<^sup>2\<^sup>4\<close>: \<open>x\<close> is rounded to a multiple of \<open>2 powr (e - 52)\<close>, where
  \<open>2 powr e \<le> |x| < 2 powr (e + 1)\<close> and \<open>e\<close> is at least \<open>-1022\<close>.
\<close>

definition round_half_even :: "real \<Rightarrow> int" where
  "round_half_even q =
     (if q - of_int \<lfloor>q\<rfloor> < 1 / 2 then \<lfloor>q\<rfloor>
      else if 1 / 2 < q - of_int \<lfloor>q\<rfloor> then \<lfloor>q\<rfloor> + 1
      else if even \<lfloor>q\<rfloor> then \<lfloor>q\<rfloor>
      else \<lfloor>q\<rfloor> + 1)"

definition double_ulp :: "real \<Rightarrow> real" where
  "double_ulp x = 2 powr (real_of_int (max \<lfloor>log 2 \<bar>x\<bar>\<rfloor> (- 1022)) - 52)"

definition double_round :: "real \<Rightarrow> real" where
  "double_round x =
     (if x = 0 then 0 else double_ulp x * of_int (round_half_even (x / double_ulp x)))"

section \<open>Percentiles of a column\<close>

text \<open>
  \<^verbatim>\<open>create_dists\<close>, the scan of one sorted scratch file. \<open>vals\<close> are the values in the
  order the sort delivers them and \<open>nall\<close> is \<^verbatim>\<open>dists[i].nall\<close>. The state of the loop is
  \<open>(count, scale_min, scale_max)\<close>. After the loop \<^verbatim>\<open>val\<close> holds the last value read; with
  no value read it is uninitialised, and \<open>scale_max\<close> is left at the sentinel here.
\<close>

definition pctl_step ::
  "nat \<Rightarrow> real \<Rightarrow> real \<Rightarrow> real \<Rightarrow> nat \<times> xdouble \<times> xdouble \<Rightarrow> nat \<times> xdouble \<times> xdouble" where
  "pctl_step nall lo_pctl hi_pctl val st =
     (case st of (count, scale_min, scale_max) \<Rightarrow>
        (count + 1,
         if scale_min = HUGE_VAL \<or> 100 * real (count + 1) / real nall < lo_pctl
         then Fin val else scale_min,
         if scale_max = HUGE_VAL \<and> hi_pctl < 100 * real (count + 1) / real nall
         then Fin val else scale_max))"

definition pctl_scan :: "nat \<Rightarrow> real \<Rightarrow> real \<Rightarrow> real list \<Rightarrow> xdouble \<times> xdouble" where
  "pctl_scan nall lo_pctl hi_pctl vals =
     (case fold (pctl_step nall lo_pctl hi_pctl) vals (0, HUGE_VAL, HUGE_VAL) of
        (count, scale_min, scale_max) \<Rightarrow>
          (scale_min,
           if scale_max = HUGE_VAL \<and> vals \<noteq> [] then Fin (last vals) else scale_max))"

text \<open>
  The words of the specification: the values are numbered \<open>k = 1, 2, \<dots>\<close>;
  \<open>first_value_where P vals\<close> is the first value whose number satisfies \<open>P\<close>, and
  \<open>last_value_where P vals\<close> the last one.
\<close>

definition first_value_where :: "(nat \<Rightarrow> bool) \<Rightarrow> real list \<Rightarrow> real option" where
  "first_value_where P vals =
     (case filter P [1..<length vals + 1] of [] \<Rightarrow> None | k # ks \<Rightarrow> Some (vals ! (k - 1)))"

definition last_value_where :: "(nat \<Rightarrow> bool) \<Rightarrow> real list \<Rightarrow> real option" where
  "last_value_where P vals =
     (case rev (filter P [1..<length vals + 1]) of [] \<Rightarrow> None | k # ks \<Rightarrow> Some (vals ! (k - 1)))"

text \<open>\<^verbatim>\<open>scale_value\<close>, with its assertion.\<close>

record dist_t =
  dist_ngood :: nat
  dist_nall :: nat
  dist_nmissing :: nat
  dist_good_min :: real
  dist_good_max :: real
  dist_all_min :: real
  dist_all_max :: real
  dist_scale_min :: real
  dist_scale_max :: real

definition scale_value :: "dist_t \<Rightarrow> real \<Rightarrow> error + real" where
  "scale_value d val =
     (let val' = (if val < dist_scale_min d then 0
                  else if dist_scale_max d < val then 1
                  else (val - dist_scale_min d) / (dist_scale_max d - dist_scale_min d))
      in if 0 \<le> val' \<and> val' \<le> 1 then Inr val' else Inl AssertFailed)"

section \<open>Hard filters\<close>

definition FLT_LE :: int where "FLT_LE = 2"
definition FLT_LT :: int where "FLT_LT = 1"
definition FLT_EQ :: int where "FLT_EQ = 0"
definition FLT_BT :: int where "FLT_BT = - 1"
definition FLT_BE :: int where "FLT_BE = - 2"

definition NFIXED :: nat where "NFIXED = 5"

record filter_t =
  flt_type :: int
  flt_value :: real
  flt_desc :: string

text \<open>\<^verbatim>\<open>filters_t\<close>: \<open>flts_nfilt ! i\<close> filters for annotation \<open>i\<close>, \<open>flts_ntot\<close> in total.\<close>

record filters_t =
  flts_nfilt :: "nat list"
  flts_nann :: nat
  flts_ntot :: nat
  flts_filt :: "filter_t list list"
  flts_flt_mask_desc :: "string list"

text \<open>
  The fields of \<^verbatim>\<open>args_t\<close> that the modelled functions read or write. \<open>args_snp\<close> is
  \<^verbatim>\<open>filt_type == VCF_SNP\<close>; \<open>args_filt_learn\<close> is \<open>None\<close> while \<^verbatim>\<open>filt_learn.nfilt\<close> is
  \<^verbatim>\<open>NULL\<close>, that is, when no learning filter was given.
\<close>

record args_t =
  args_names :: "string list"
  args_colnames :: "string list"
  args_col2names :: "int list"
  args_ann2cols :: "nat list"
  args_nann :: nat
  args_nann_som :: nat
  args_ncols :: nat
  args_dists :: "dist_t list"
  args_ngood :: int
  args_ignore :: "bool list"
  args_som :: som_t
  args_filt_learn :: "filters_t option"
  args_nt_learn_frac :: real
  args_snp :: bool
  args_rand_seed :: int

text \<open>\<^verbatim>\<open>failed_filters\<close>: the state of the loops is \<open>(failed, k)\<close>; \<^verbatim>\<open>1<<k\<close> is a shift of an
  \<^verbatim>\<open>int\<close>, converted to \<^verbatim>\<open>uint64_t\<close>.\<close>

definition filter_fails :: "filter_t \<Rightarrow> real \<Rightarrow> bool" where
  "filter_fails f v =
     (if flt_type f = FLT_BE then v < flt_value f
      else if flt_type f = FLT_BT then v \<le> flt_value f
      else if flt_type f = FLT_EQ then v \<noteq> flt_value f
      else if flt_type f = FLT_LT then flt_value f \<le> v
      else if flt_type f = FLT_LE then flt_value f < v
      else False)"

definition failed_filters :: "filters_t \<Rightarrow> real list \<Rightarrow> 64 word" where
  "failed_filters filt vec =
     fst (fold (\<lambda>i st.
            if flts_nfilt filt ! i = 0 then st
            else fold (\<lambda>j (failed, k).
                   (if filter_fails (flts_filt filt ! i ! j) (vec ! i)
                    then failed OR scast (push_bit k (1 :: 32 word)) else failed,
                    k + 1))
                 [0..<flts_nfilt filt ! i] st)
          [0..<flts_nann filt] (0, 0 :: nat))"

text \<open>\<^verbatim>\<open>init_extra_annot\<close>: an annotation that only a filter names joins the model.\<close>

definition init_extra_annot :: "args_t \<Rightarrow> string \<Rightarrow> error + args_t" where
  "init_extra_annot args annot =
     (case List.find (\<lambda>i. annot = args_colnames args ! i) [NFIXED..<args_ncols args] of
        None \<Rightarrow> Inl NoSuchAnnotation
      | Some i \<Rightarrow>
          Inr (args\<lparr>args_names := take (args_nann args) (args_names args) @ [annot],
                    args_ignore := (args_ignore args)[i := False],
                    args_col2names := (args_col2names args)[i := int (args_nann args)],
                    args_ann2cols := (args_ann2cols args)[args_nann args := i],
                    args_nann := args_nann args + 1\<rparr>))"

text \<open>
  \<^verbatim>\<open>init_filters\<close>. The expression is first copied without white space into the buffer
  \<^verbatim>\<open>args->str\<close> (an expression without any other character leaves the buffer's previous
  content in place; the model is for expressions that have one). The scan keeps three
  pointers into the copy; here \<open>rest\<close> is the text from \<^verbatim>\<open>e\<close> on and \<open>pending\<close> the text
  between \<^verbatim>\<open>s\<close> and \<^verbatim>\<open>e\<close>. The conversion \<^verbatim>\<open>sscanf(s,"%le",...)\<close> of the C library is the
  parameter \<open>scan_le\<close>.
\<close>

definition c_isspace :: "char \<Rightarrow> bool" where
  "c_isspace ch = (ch \<in> set [CHR '' '', CHR 0x09, CHR 0x0A, CHR 0x0B, CHR 0x0C, CHR 0x0D])"

definition is_cmp_char :: "char \<Rightarrow> bool" where
  "is_cmp_char ch = (ch = CHR ''<'' \<or> ch = CHR ''>'' \<or> ch = CHR ''='')"

definition parse_op :: "string \<Rightarrow> error + int" where
  "parse_op ops =
     (if length ops = 2 then
        (if ops = ''=='' then Inr FLT_EQ
         else if ops = ''<='' then Inr FLT_LE
         else if ops = ''>='' then Inr FLT_BE
         else Inl CouldNotParseFilter)
      else if length ops = 1 then
        (if ops = ''>'' then Inr FLT_BT
         else if ops = ''<'' then Inr FLT_LT
         else if ops = ''='' then Inr FLT_EQ
         else Inl CouldNotParseFilter)
      else Inl CouldNotParseFilter)"

text \<open>The search for the annotation of a term: the first column, from \<^verbatim>\<open>NFIXED\<close> on, whose
  name is the left or the right text; the operator is negated when it is the right one.\<close>

definition find_annot :: "args_t \<Rightarrow> string \<Rightarrow> string \<Rightarrow> nat option" where
  "find_annot args left right =
     List.find (\<lambda>i. args_colnames args ! i = left \<or> args_colnames args ! i = right)
       [NFIXED..<args_ncols args]"

definition add_filter ::
  "(string \<Rightarrow> real option) \<Rightarrow> bool \<Rightarrow> string \<Rightarrow> int \<Rightarrow> string \<Rightarrow> string
     \<Rightarrow> args_t \<times> filters_t \<Rightarrow> error + args_t \<times> filters_t" where
  "add_filter scan_le scale left type0 right ftext st =
     (case st of (args, filts) \<Rightarrow>
      case find_annot args left right of
        None \<Rightarrow> Inl NoSuchAnnotation
      | Some col \<Rightarrow>
          let is_left = (args_colnames args ! col = left);
              s = (if is_left then right else left);
              ann = (if is_left then left else right);
              type = (if is_left then type0 else type0 * (- 1))
          in case (if args_col2names args ! col = - 1 then init_extra_annot args ann else Inr args) of
               Inl e \<Rightarrow> Inl e
             | Inr args1 \<Rightarrow>
                 let filts1 = (if args_col2names args ! col = - 1
                               then filts\<lparr>flts_nann := args_nann args1\<rparr> else filts);
                     tmp = args_colnames args1 ! col @ [CHR 0x09] @ ftext;
                     i = nat (args_col2names args1 ! col)
                 in case scan_le s of
                      None \<Rightarrow> Inl CouldNotParseFilter
                    | Some v \<Rightarrow>
                        (case (if scale then scale_value (args_dists args1 ! (args_ann2cols args1 ! i)) v
                               else Inr v) of
                           Inl e \<Rightarrow> Inl e
                         | Inr value \<Rightarrow>
                             Inr (args1,
                                  filts1\<lparr>
                                    flts_nfilt := (flts_nfilt filts1)[i := flts_nfilt filts1 ! i + 1],
                                    flts_ntot := flts_ntot filts1 + 1,
                                    flts_filt := (flts_filt filts1)[i := flts_filt filts1 ! i @
                                      [\<lparr>flt_type = type, flt_value = value, flt_desc = tmp\<rparr>]],
                                    flts_flt_mask_desc := flts_flt_mask_desc filts1 @
                                      [drop 1 (dropWhile (\<lambda>ch. ch \<noteq> CHR 0x09) tmp)]\<rparr>)))"

function parse_terms ::
  "(string \<Rightarrow> real option) \<Rightarrow> bool \<Rightarrow> string \<Rightarrow> string \<Rightarrow> args_t \<times> filters_t
     \<Rightarrow> error + args_t \<times> filters_t" where
  "parse_terms scan_le scale pending [] st = Inr st"
| "parse_terms scan_le scale pending (ch # rest) st =
     (if ch = CHR ''&'' then parse_terms scan_le scale [] rest st
      else if is_cmp_char ch then
        (if dropWhile is_cmp_char rest = [] then Inl CouldNotParseFilter
         else case parse_op (ch # takeWhile is_cmp_char rest) of
           Inl e \<Rightarrow> Inl e
         | Inr type \<Rightarrow>
             (case add_filter scan_le scale pending type
                     (takeWhile (\<lambda>c. c \<noteq> CHR ''&'') (dropWhile is_cmp_char rest))
                     (pending @ ch # takeWhile is_cmp_char rest
                        @ takeWhile (\<lambda>c. c \<noteq> CHR ''&'') (dropWhile is_cmp_char rest)) st of
                Inl e \<Rightarrow> Inl e
              | Inr st' \<Rightarrow>
                  parse_terms scan_le scale []
                    (dropWhile (\<lambda>c. c \<noteq> CHR ''&'') (dropWhile is_cmp_char rest)) st'))
      else parse_terms scan_le scale (pending @ [ch]) rest st)"
  by pat_completeness auto
termination
proof (relation "measure (\<lambda>(scan_le, scale, pending, rest, st). length rest)")
  show "wf (measure (\<lambda>(scan_le, scale, pending, rest, st). length rest))" by simp
next
  fix scan_le :: "string \<Rightarrow> real option" and scale :: bool and pending :: string
    and ch :: char and rest :: string and st :: "args_t \<times> filters_t"
  show "((scan_le, scale, [], rest, st), scan_le, scale, pending, ch # rest, st)
      \<in> measure (\<lambda>(scan_le, scale, pending, rest, st). length rest)"
    by simp
  show "((scan_le, scale, pending @ [ch], rest, st), scan_le, scale, pending, ch # rest, st)
      \<in> measure (\<lambda>(scan_le, scale, pending, rest, st). length rest)"
    by simp
  fix st' :: "args_t \<times> filters_t"
  have "length (dropWhile (\<lambda>c. c \<noteq> CHR ''&'') (dropWhile is_cmp_char rest))
      \<le> length (dropWhile is_cmp_char rest)"
    by (rule length_dropWhile_le)
  also have "\<dots> \<le> length rest" by (rule length_dropWhile_le)
  finally show "((scan_le, scale, [],
        dropWhile (\<lambda>c. c \<noteq> CHR ''&'') (dropWhile is_cmp_char rest), st'),
       scan_le, scale, pending, ch # rest, st)
      \<in> measure (\<lambda>(scan_le, scale, pending, rest, st). length rest)"
    by simp
qed

definition sizeof_uint64_t :: nat where
  "sizeof_uint64_t = 8"

definition init_filters ::
  "(string \<Rightarrow> real option) \<Rightarrow> args_t \<Rightarrow> string \<Rightarrow> bool \<Rightarrow> error + args_t \<times> filters_t" where
  "init_filters scan_le args str scale =
     (let filts = \<lparr>flts_nfilt = replicate (args_ncols args - NFIXED) 0,
                   flts_nann = args_nann args,
                   flts_ntot = 0,
                   flts_filt = replicate (args_ncols args - NFIXED) [],
                   flts_flt_mask_desc = []\<rparr>
      in case parse_terms scan_le scale [] (filter (\<lambda>ch. \<not> c_isspace ch) str) (args, filts) of
           Inl e \<Rightarrow> Inl e
         | Inr (args', filts') \<Rightarrow>
             if sizeof_uint64_t - 1 < flts_ntot filts' then Inl (TooManyHardFilters (flts_ntot filts'))
             else Inr (args', filts'))"

section \<open>Sampling, training and scoring\<close>

text \<open>What \<^verbatim>\<open>annots_reader_next\<close> leaves in \<^verbatim>\<open>args\<close> for one line of the table.\<close>

record row_t =
  row_chr :: string
  row_pos :: int
  row_mask :: int
  row_ref :: string
  row_alt :: string
  row_nset :: nat
  row_vals :: "real list"

text \<open>
  The sampling pass of \<^verbatim>\<open>som_init\<close>. The two reservoirs are flat arrays with
  \<open>nann_som\<close> values per slot. Both branches choose the slot \<open>i\<close> in the same way: the next
  free slot while there is one, else \<^verbatim>\<open>(double)(max-1)*random()/RAND_MAX\<close>, where \<open>max\<close> is
  \<^verbatim>\<open>ngood_fixed_max\<close> (here \<open>fixed_max\<close>) or \<^verbatim>\<open>ngood_learn_max\<close> (here \<open>learn_max\<close>).
\<close>

record sample_t =
  good_vals_fixed :: "real list"
  ngood_vals_fixed :: nat
  good_vals_learn :: "real list"
  ngood_vals_learn :: nat
  rng :: prng

definition reservoir_slot :: "nat \<Rightarrow> int \<Rightarrow> nat \<Rightarrow> prng \<Rightarrow> int \<times> nat \<times> prng" where
  "reservoir_slot RAND_MAX ngood_max ngood_vals g =
     (if int ngood_vals < ngood_max then (int ngood_vals, ngood_vals + 1, g)
      else case random g of (r, g') \<Rightarrow>
        (c_trunc (real_of_int (ngood_max - 1) * real r / real RAND_MAX), ngood_vals, g'))"

definition store_row :: "nat \<Rightarrow> real list \<Rightarrow> nat \<Rightarrow> real list \<Rightarrow> real list" where
  "store_row nann_som vals i arr = fold (\<lambda>j a. a[i * nann_som + j := vals ! j]) [0..<nann_som] arr"

definition sample_row :: "nat \<Rightarrow> args_t \<Rightarrow> int \<Rightarrow> int \<Rightarrow> row_t \<Rightarrow> sample_t \<Rightarrow> sample_t" where
  "sample_row RAND_MAX args fixed_max learn_max row st =
     (if row_nset row \<noteq> args_nann args then st
      else if IS_GOOD (row_mask row) then
        (if fixed_max = 0 then st
         else case reservoir_slot RAND_MAX fixed_max (ngood_vals_fixed st) (rng st) of
           (i, n, g') \<Rightarrow>
             st\<lparr>good_vals_fixed :=
                   store_row (args_nann_som args) (row_vals row) (nat i) (good_vals_fixed st),
                ngood_vals_fixed := n, rng := g'\<rparr>)
      else
        (case args_filt_learn args of
           None \<Rightarrow> st
         | Some filt \<Rightarrow>
             if learn_max = 0 then st
             else if failed_filters filt (row_vals row) \<noteq> 0 then st
             else case reservoir_slot RAND_MAX learn_max (ngood_vals_learn st) (rng st) of
               (i, n, g') \<Rightarrow>
                 st\<lparr>good_vals_learn :=
                       store_row (args_nann_som args) (row_vals row) (nat i) (good_vals_learn st),
                    ngood_vals_learn := n, rng := g'\<rparr>))"

text \<open>
  A reservoir \<open>new\<close> is the reservoir \<open>old\<close> with the slot \<open>slot\<close> (of \<open>n\<close> values)
  replaced by \<open>vals\<close> and every other slot as it was.
\<close>

definition slot_replaced :: "nat \<Rightarrow> real list \<Rightarrow> nat \<Rightarrow> real list \<Rightarrow> real list \<Rightarrow> bool" where
  "slot_replaced n vals slot old new =
     (length new = length old
      \<and> (\<forall>x<length old. new ! x =
            (if slot * n \<le> x \<and> x < slot * n + n then vals ! (x - slot * n) else old ! x)))"

text \<open>The head of \<^verbatim>\<open>som_init\<close>: the map, the two capacities and the empty reservoirs.\<close>

definition som_init_head ::
  "(real \<Rightarrow> real) \<Rightarrow> nat \<Rightarrow> (int \<Rightarrow> prng) \<Rightarrow> args_t \<Rightarrow> prng
     \<Rightarrow> som_t \<times> int \<times> int \<times> sample_t" where
  "som_init_head rnd RAND_MAX srandom args g =
     (case som_init_rand RAND_MAX srandom
             (som_init1 (args_ngood args) (args_nann_som args) (args_som args))
             (args_rand_seed args) g of
        (good_som, g1) \<Rightarrow>
          (good_som,
           ngood_fixed_max rnd good_som (args_nt_learn_frac args),
           ngood_learn_max rnd good_som (args_nt_learn_frac args),
           \<lparr>good_vals_fixed =
                replicate (nat (ngood_fixed_max rnd good_som (args_nt_learn_frac args))
                             * args_nann_som args) 0,
             ngood_vals_fixed = 0,
             good_vals_learn =
                replicate (nat (ngood_learn_max rnd good_som (args_nt_learn_frac args))
                             * args_nann_som args) 0,
             ngood_vals_learn = 0,
             rng = srandom (args_rand_seed args)\<rparr>))"

text \<open>Training on the slots \<open>is\<close> of a reservoir, in order; a failed assertion ends it.\<close>

fun train_all :: "nat \<Rightarrow> nat \<Rightarrow> real list \<Rightarrow> nat list \<Rightarrow> som_t \<times> prng \<Rightarrow> error + som_t \<times> prng" where
  "train_all RAND_MAX nann_som arr [] sg = Inr sg"
| "train_all RAND_MAX nann_som arr (i # is) sg =
     (case som_train RAND_MAX (fst sg) (drop (i * nann_som) arr) (snd sg) of
        Inl e \<Rightarrow> Inl e
      | Inr sg' \<Rightarrow> train_all RAND_MAX nann_som arr is sg')"

definition som_init ::
  "(real \<Rightarrow> real) \<Rightarrow> nat \<Rightarrow> (int \<Rightarrow> prng) \<Rightarrow> args_t \<Rightarrow> row_t list \<Rightarrow> prng
     \<Rightarrow> error + som_t \<times> prng" where
  "som_init rnd RAND_MAX srandom args rows g =
     (case som_init_head rnd RAND_MAX srandom args g of
        (good_som, fixed_max, learn_max, st0) \<Rightarrow>
          let st = fold (sample_row RAND_MAX args fixed_max learn_max) rows st0;
              n = ngood_vals_learn st + ngood_vals_fixed st;
              som1 = (if int n < som_nt good_som then good_som\<lparr>som_nt := int n\<rparr> else good_som)
          in case train_all RAND_MAX (args_nann_som args) (good_vals_fixed st)
                    [0..<ngood_vals_fixed st] (som1, rng st) of
               Inl e \<Rightarrow> Inl e
             | Inr sg \<Rightarrow>
                 (case train_all RAND_MAX (args_nann_som args) (good_vals_learn st)
                         [0..<ngood_vals_learn st] sg of
                    Inl e \<Rightarrow> Inl e
                  | Inr (som2, g2) \<Rightarrow> Inr (som_norm som2, g2)))"

text \<open>
  The scoring loop of \<^verbatim>\<open>eval_filters\<close>: a row with all annotations set gives one record
  \<open>(score, class, good, chr, pos)\<close> of the sites file; \<^verbatim>\<open>max_dist\<close> is \<^verbatim>\<open>good_som->kdim\<close>.
  \<open>indel_ctx\<close> is \<^verbatim>\<open>indel_ctx_type\<close> on the loaded reference, \<open>None\<close> without one.
\<close>

definition score_row ::
  "(char \<Rightarrow> int) \<Rightarrow> (string \<Rightarrow> int \<Rightarrow> string \<Rightarrow> string \<Rightarrow> int \<times> int \<times> int) option
     \<Rightarrow> args_t \<Rightarrow> som_t \<Rightarrow> row_t \<Rightarrow> (xdouble \<times> int \<times> int \<times> string \<times> int) option" where
  "score_row bcf_acgt2int indel_ctx args good_som row =
     (if row_nset row \<noteq> args_nann args then None
      else
        let max_dist = real (som_kdim good_som);
            dist = som_calc_dist good_som (row_vals row);
            score = xd_div dist max_dist;
            class = determine_variant_class bcf_acgt2int (args_snp args) (row_ref row) (row_alt row)
                      (map_option (\<lambda>f. f (row_chr row) (row_pos row) (row_ref row) (row_alt row))
                         indel_ctx)
        in Some (score, class, if IS_GOOD (row_mask row) then 1 else 0, row_chr row, row_pos row))"

definition eval_scores ::
  "(char \<Rightarrow> int) \<Rightarrow> (string \<Rightarrow> int \<Rightarrow> string \<Rightarrow> string \<Rightarrow> int \<times> int \<times> int) option
     \<Rightarrow> args_t \<Rightarrow> som_t \<Rightarrow> row_t list \<Rightarrow> (xdouble \<times> int \<times> int \<times> string \<times> int) list \<times> nat \<times> nat" where
  "eval_scores bcf_acgt2int indel_ctx args good_som rows =
     fold (\<lambda>row (out, ngood, nall).
             case score_row bcf_acgt2int indel_ctx args good_som row of
               None \<Rightarrow> (out, ngood, nall)
             | Some site \<Rightarrow>
                 (out @ [site], if IS_GOOD (row_mask row) then ngood + 1 else ngood, nall + 1))
       rows ([], 0, 0)"

text \<open>
  The score in the words of the specification: the squared Euclidean distance from \<open>vec\<close>
  to the nearest prototype among the cells, of all maps, whose count is at least the
  activation threshold; \<^verbatim>\<open>HUGE_VAL\<close> when there is no such cell.
\<close>

definition proto_sq_dist :: "som_t \<Rightarrow> real list \<Rightarrow> nat \<Rightarrow> real" where
  "proto_sq_dist som vec q =
     (\<Sum>k\<leftarrow>[0..<som_kdim som]. (vec ! k - som_w som ! (q * som_kdim som + k))\<^sup>2)"

definition active_cells :: "som_t \<Rightarrow> nat list" where
  "active_cells som =
     filter (\<lambda>q. som_th som \<le> som_c som ! q) [0..<som_nsom som * (som_nbin som * som_nbin som)]"

definition xd_Min :: "real list \<Rightarrow> xdouble" where
  "xd_Min ds = (case ds of [] \<Rightarrow> HUGE_VAL | d # ds' \<Rightarrow> Fin (Min (set ds)))"

text \<open>The update \<^verbatim>\<open>if ( cand < old ) old = cand;\<close> as a function.\<close>

definition xd_upd :: "xdouble \<Rightarrow> xdouble \<Rightarrow> xdouble" where
  "xd_upd cand old = (if xd_less cand old then cand else old)"

definition nearest_active :: "som_t \<Rightarrow> real list \<Rightarrow> xdouble" where
  "nearest_active som vec = xd_Min (map (proto_sq_dist som vec) (active_cells som))"

section \<open>Example maps\<close>

text \<open>
  Small maps on which the functions are evaluated: one map of \<open>2 \<times> 2\<close> cells, and two
  maps of \<open>2 \<times> 2\<close> cells before their first training step.
\<close>

definition som_one_map :: som_t where
  "som_one_map = \<lparr>som_nsom = 1, som_nbin = 2, som_kdim = 1, som_nt = 4, som_tcur = [0],
     som_w = [0, 0, 0, 1], som_c = [0, 0, 0, 0], som_learn = 1 / 10, som_th = 1 / 5\<rparr>"

definition som_two_maps :: som_t where
  "som_two_maps = \<lparr>som_nsom = 2, som_nbin = 2, som_kdim = 1, som_nt = 4, som_tcur = [0, 0],
     som_w = [1 / 4, 1 / 2, 3 / 4, 1 / 2, 1 / 2, 1, 1 / 4, 3 / 4], som_c = [0, 0, 0, 0, 0, 0, 0, 0],
     som_learn = 1 / 10, som_th = 1 / 5\<rparr>"

text \<open>Two maps after training, before \<^verbatim>\<open>som_norm\<close>: the counts are sums of influences.\<close>

definition som_two_trained :: som_t where
  "som_two_trained = \<lparr>som_nsom = 2, som_nbin = 2, som_kdim = 1, som_nt = 4, som_tcur = [2, 2],
     som_w = [1 / 4, 1 / 2, 3 / 4, 1 / 2, 1 / 2, 1, 1 / 4, 3 / 4],
     som_c = [3 / 10, 0, 0, 0, 1 / 10, 1 / 2, 1 / 5, 1 / 10],
     som_learn = 1 / 10, som_th = 1 / 5\<rparr>"

text \<open>A normalised map with two annotations whose only populated cell is \<open>(0, 0)\<close>.\<close>

definition som_two_dim :: som_t where
  "som_two_dim = \<lparr>som_nsom = 1, som_nbin = 2, som_kdim = 2, som_nt = 4, som_tcur = [4],
     som_w = [0, 0, 1 / 2, 1 / 2, 1 / 4, 3 / 4, 1, 1], som_c = [1, 0, 0, 0],
     som_learn = 1 / 10, som_th = 1 / 5\<rparr>"

section \<open>Example tables\<close>

text \<open>
  A table with the annotations \<^verbatim>\<open>QUAL\<close> and \<^verbatim>\<open>DP\<close>, both in the model, as
  \<^verbatim>\<open>init_annots\<close> leaves it without \<^verbatim>\<open>-a\<close>; ten good sites, \<^verbatim>\<open>-n 0,0.3\<close>.
\<close>

definition dist_unit :: dist_t where
  "dist_unit = \<lparr>dist_ngood = 10, dist_nall = 20, dist_nmissing = 0, dist_good_min = 0,
     dist_good_max = 1, dist_all_min = 0, dist_all_max = 1, dist_scale_min = 0,
     dist_scale_max = 1\<rparr>"

definition args_two_annots :: args_t where
  "args_two_annots = \<lparr>
     args_names = [''QUAL'', ''DP''],
     args_colnames = [''CHROM'', ''POS'', ''MASK'', ''REF'', ''ALT'', ''QUAL'', ''DP''],
     args_col2names = [- 1, - 1, - 1, - 1, - 1, 0, 1],
     args_ann2cols = [5, 6, 0, 0, 0, 0, 0],
     args_nann = 2, args_nann_som = 2, args_ncols = 7,
     args_dists = replicate 7 dist_unit,
     args_ngood = 10,
     args_ignore = replicate 7 False,
     args_som = \<lparr>som_nsom = 1, som_nbin = 2, som_kdim = 0, som_nt = 0, som_tcur = [],
       som_w = [], som_c = [], som_learn = 1 / 10, som_th = 1 / 5\<rparr>,
     args_filt_learn = None,
     args_nt_learn_frac = 3 / 10,
     args_snp = True,
     args_rand_seed = 1\<rparr>"

text \<open>
  The same table with 90 good sites and \<^verbatim>\<open>-n 0,0.3\<close>, and with 1000 good sites and
  \<^verbatim>\<open>-n 100,0.29\<close>; the fractions are the \<^verbatim>\<open>double\<close> values that \<^verbatim>\<open>sscanf\<close> reads,
  \<open>5404319552844595 / 2\<^sup>5\<^sup>4\<close> and \<open>5224175567749775 / 2\<^sup>5\<^sup>4\<close>.
\<close>

definition args_ninety :: args_t where
  "args_ninety = args_two_annots\<lparr>args_ngood := 90,
     args_nt_learn_frac := 5404319552844595 / 18014398509481984\<rparr>"

definition args_hundred :: args_t where
  "args_hundred = args_two_annots\<lparr>args_ngood := 1000,
     args_som := (args_som args_two_annots)\<lparr>som_nt := 100\<rparr>,
     args_nt_learn_frac := 5224175567749775 / 18014398509481984\<rparr>"

text \<open>The fixed reservoir of capacity 7, full, and a good row with both annotations.\<close>

definition sample_full :: sample_t where
  "sample_full = \<lparr>
     good_vals_fixed = [1 / 14, 2 / 14, 3 / 14, 4 / 14, 5 / 14, 6 / 14, 7 / 14,
                        8 / 14, 9 / 14, 10 / 14, 11 / 14, 12 / 14, 13 / 14, 1],
     ngood_vals_fixed = 7,
     good_vals_learn = [0, 0, 0, 0, 0, 0], ngood_vals_learn = 0,
     rng = (\<lambda>n. 1000000000)\<rparr>"

definition row_good :: row_t where
  "row_good = \<lparr>row_chr = ''1'', row_pos = 1000, row_mask = 2, row_ref = ''A'', row_alt = ''G'',
     row_nset = 2, row_vals = [1 / 2, 1 / 4]\<rparr>"

text \<open>The same table with the learning filter \<^verbatim>\<open>QUAL>0\<close>, the learn reservoir of capacity
  3, full, and a row that is not good and passes the filter.\<close>

definition args_learning :: args_t where
  "args_learning = args_two_annots\<lparr>args_filt_learn := Some
     \<lparr>flts_nfilt = [1, 0], flts_nann = 2, flts_ntot = 1,
      flts_filt = [[\<lparr>flt_type = FLT_BT, flt_value = 0,
                     flt_desc = ''QUAL'' @ [CHR 0x09] @ ''QUAL>0''\<rparr>], []],
      flts_flt_mask_desc = [''QUAL>0'']\<rparr>\<rparr>"

definition sample_learn_full :: sample_t where
  "sample_learn_full = \<lparr>
     good_vals_fixed = [0, 0, 0, 0, 0, 0, 0, 0, 0, 0, 0, 0, 0, 0], ngood_vals_fixed = 0,
     good_vals_learn = [1 / 6, 2 / 6, 3 / 6, 4 / 6, 5 / 6, 1], ngood_vals_learn = 3,
     rng = (\<lambda>n. 2000000000)\<rparr>"

definition row_other :: row_t where
  "row_other = \<lparr>row_chr = ''1'', row_pos = 3000, row_mask = 1, row_ref = ''C'', row_alt = ''T'',
     row_nset = 2, row_vals = [3 / 4, 1 / 8]\<rparr>"

text \<open>A table with one annotation, \<^verbatim>\<open>-n 2,0.5\<close>: both reservoirs have capacity 1.\<close>

definition args_one_annot :: args_t where
  "args_one_annot = \<lparr>
     args_names = [''QUAL''],
     args_colnames = [''CHROM'', ''POS'', ''MASK'', ''REF'', ''ALT'', ''QUAL''],
     args_col2names = [- 1, - 1, - 1, - 1, - 1, 0],
     args_ann2cols = [5, 0, 0, 0, 0, 0],
     args_nann = 1, args_nann_som = 1, args_ncols = 6,
     args_dists = replicate 6 dist_unit,
     args_ngood = 10,
     args_ignore = replicate 6 False,
     args_som = \<lparr>som_nsom = 1, som_nbin = 2, som_kdim = 0, som_nt = 2, som_tcur = [],
       som_w = [], som_c = [], som_learn = 1 / 10, som_th = 1 / 5\<rparr>,
     args_filt_learn = None,
     args_nt_learn_frac = 1 / 2,
     args_snp = True,
     args_rand_seed = 1\<rparr>"

definition sample_one_full :: sample_t where
  "sample_one_full = \<lparr>good_vals_fixed = [3 / 10], ngood_vals_fixed = 1,
     good_vals_learn = [0], ngood_vals_learn = 0, rng = (\<lambda>n. 1000000000)\<rparr>"

definition row_good_one :: row_t where
  "row_good_one = \<lparr>row_chr = ''1'', row_pos = 2000, row_mask = 2, row_ref = ''A'', row_alt = ''G'',
     row_nset = 1, row_vals = [7 / 10]\<rparr>"

text \<open>The conversion \<^verbatim>\<open>%le\<close> on an unsigned decimal integer, for the example expressions.\<close>

definition scan_unsigned :: "string \<Rightarrow> real option" where
  "scan_unsigned s =
     (case takeWhile (\<lambda>ch. ch \<in> set ''0123456789'') s of
        [] \<Rightarrow> None
      | d # ds \<Rightarrow> Some (real (fold (\<lambda>ch n. 10 * n + (of_char ch - 48)) (d # ds) 0)))"

section \<open>Theorems\<close>

subsection \<open>Loops over the grid\<close>

text \<open>The two nested loops over \<open>i\<close> and \<open>j\<close> visit the cells \<open>q = i * nbin + j\<close> in order.\<close>

lemma fold_row_shift:
  "fold (f n) [0..<m] s = fold (\<lambda>q. f (q div m) (q mod m)) [n * m..<n * m + m] s"
proof -
  have "[n * m..<n * m + m] = map (\<lambda>j. j + n * m) [0..<m]"
    using map_add_upt [of "n * m" m] by (simp add: add.commute)
  then have "fold (\<lambda>q. f (q div m) (q mod m)) [n * m..<n * m + m] s
      = fold ((\<lambda>q. f (q div m) (q mod m)) \<circ> (\<lambda>j. j + n * m)) [0..<m] s"
    by (simp only: fold_map)
  also have "\<dots> = fold (f n) [0..<m] s"
    by (rule fold_cong) auto
  finally show ?thesis by simp
qed

lemma fold_grid:
  "fold (\<lambda>i. fold (f i) [0..<m]) [0..<n] s = fold (\<lambda>q. f (q div m) (q mod m)) [0..<n * m] s"
proof (induction n)
  case 0
  show ?case by simp
next
  case (Suc n)
  have split: "[0..<Suc n * m] = [0..<n * m] @ [n * m..<n * m + m]"
    using upt_add_eq_append [of 0 "n * m" m] by (simp add: add.commute)
  have "fold (\<lambda>i. fold (f i) [0..<m]) [0..<Suc n] s
      = fold (f n) [0..<m] (fold (\<lambda>i. fold (f i) [0..<m]) [0..<n] s)"
    by simp
  also have "\<dots> = fold (f n) [0..<m] (fold (\<lambda>q. f (q div m) (q mod m)) [0..<n * m] s)"
    by (simp only: Suc.IH)
  also have "\<dots> = fold (\<lambda>q. f (q div m) (q mod m)) [n * m..<n * m + m]
        (fold (\<lambda>q. f (q div m) (q mod m)) [0..<n * m] s)"
    by (rule fold_row_shift)
  also have "\<dots> = fold (\<lambda>q. f (q div m) (q mod m)) [0..<Suc n * m] s"
    by (simp only: split fold_append o_apply)
  finally show ?case .
qed

lemma length_move_weights [simp]: "length (move_weights kdim vec a ptr w) = length w"
  unfolding move_weights_def by (induction kdim) simp_all

lemma move_weights_nth:
  assumes "ptr + kdim \<le> length w" "x < length w"
  shows "move_weights kdim vec a ptr w ! x =
    (if ptr \<le> x \<and> x < ptr + kdim then w ! x + a * (vec ! (x - ptr) - w ! x) else w ! x)"
  using assms
proof (induction kdim arbitrary: x)
  case 0
  then show ?case by (simp add: move_weights_def)
next
  case (Suc k)
  have step: "move_weights (Suc k) vec a ptr w =
      (move_weights k vec a ptr w)[ptr + k := move_weights k vec a ptr w ! (ptr + k)
         + a * (vec ! k - move_weights k vec a ptr w ! (ptr + k))]"
    by (simp add: move_weights_def)
  have old: "move_weights k vec a ptr w ! (ptr + k) = w ! (ptr + k)"
    using Suc.IH [of "ptr + k"] Suc.prems by simp
  show ?case
  proof (cases "x = ptr + k")
    case True
    then show ?thesis using Suc.prems by (simp add: step old)
  next
    case False
    then show ?thesis using Suc.IH [of x] Suc.prems by (auto simp: step)
  qed
qed

lemma cell_offset_less:
  fixes q N kdim k :: nat
  assumes "q < N" "k < kdim"
  shows "q * kdim + k < N * kdim"
proof -
  have "q * kdim + k < Suc q * kdim" using assms(2) by simp
  also have "\<dots> \<le> N * kdim" using assms(1) by (intro mult_le_mono1) simp
  finally show ?thesis .
qed

lemma update_loop:
  fixes kdim :: nat and vec :: "real list" and nbin imin jmin :: nat and radius lr :: real
  defines "step \<equiv> \<lambda>q. update_cell kdim vec imin jmin radius lr (q div nbin) (q mod nbin)"
    and "d2 \<equiv> \<lambda>q. grid_dist (q div nbin) (q mod nbin) imin jmin"
  defines "infl \<equiv> \<lambda>q. exp (- d2 q * d2 q * 0.5 / radius) * lr"
  assumes "p0 + N * kdim \<le> length w" "c0 + N \<le> length c"
  shows "\<exists>w' c'. fold step [0..<N] (w, c, p0, c0) = (w', c', p0 + N * kdim, c0 + N)
    \<and> length w' = length w \<and> length c' = length c
    \<and> (\<forall>q<N. \<forall>k<kdim. w' ! (p0 + q * kdim + k) =
          (if d2 q \<le> radius
           then w ! (p0 + q * kdim + k) + infl q * (vec ! k - w ! (p0 + q * kdim + k))
           else w ! (p0 + q * kdim + k)))
    \<and> (\<forall>x<length w. x < p0 \<or> p0 + N * kdim \<le> x \<longrightarrow> w' ! x = w ! x)
    \<and> (\<forall>q<N. c' ! (c0 + q) = (if d2 q \<le> radius then c ! (c0 + q) + infl q else c ! (c0 + q)))
    \<and> (\<forall>y<length c. y < c0 \<or> c0 + N \<le> y \<longrightarrow> c' ! y = c ! y)"
  using assms(4,5)
proof (induction N)
  case 0
  show ?case by simp
next
  case (Suc N)
  from Suc.prems have pre: "p0 + N * kdim \<le> length w" "c0 + N \<le> length c" by simp_all
  from Suc.IH [OF pre] obtain w1 c1 where
    run: "fold step [0..<N] (w, c, p0, c0) = (w1, c1, p0 + N * kdim, c0 + N)"
    and len: "length w1 = length w" "length c1 = length c"
    and wq: "\<And>q k. q < N \<Longrightarrow> k < kdim \<Longrightarrow> w1 ! (p0 + q * kdim + k) =
          (if d2 q \<le> radius
           then w ! (p0 + q * kdim + k) + infl q * (vec ! k - w ! (p0 + q * kdim + k))
           else w ! (p0 + q * kdim + k))"
    and wf: "\<And>x. x < length w \<Longrightarrow> x < p0 \<or> p0 + N * kdim \<le> x \<Longrightarrow> w1 ! x = w ! x"
    and cq: "\<And>q. q < N \<Longrightarrow> c1 ! (c0 + q) =
          (if d2 q \<le> radius then c ! (c0 + q) + infl q else c ! (c0 + q))"
    and cf: "\<And>y. y < length c \<Longrightarrow> y < c0 \<or> c0 + N \<le> y \<Longrightarrow> c1 ! y = c ! y"
    by blast
  define w2 where "w2 = (if d2 N \<le> radius then move_weights kdim vec (infl N) (p0 + N * kdim) w1 else w1)"
  define c2 where "c2 = (if d2 N \<le> radius then c1[c0 + N := c1 ! (c0 + N) + infl N] else c1)"
  have run2: "fold step [0..<Suc N] (w, c, p0, c0) = (w2, c2, p0 + Suc N * kdim, c0 + Suc N)"
    by (simp add: run) (simp add: step_def update_cell_def w2_def c2_def infl_def d2_def Let_def add.commute add.left_commute)
  have inb: "p0 + N * kdim + kdim \<le> length w1" using Suc.prems len by (simp add: add.assoc add.commute)
  have w2_nth: "w2 ! x = (if d2 N \<le> radius \<and> p0 + N * kdim \<le> x \<and> x < p0 + N * kdim + kdim
        then w1 ! x + infl N * (vec ! (x - (p0 + N * kdim)) - w1 ! x) else w1 ! x)"
    if "x < length w" for x
    using that len inb by (simp add: w2_def move_weights_nth)
  have c2_nth: "c2 ! y = (if d2 N \<le> radius \<and> y = c0 + N then c1 ! y + infl N else c1 ! y)"
    if "y < length c" for y
    using that len by (auto simp: c2_def nth_list_update)
  have lens: "length w2 = length w" "length c2 = length c"
    by (simp_all add: w2_def c2_def len)
  have A: "w2 ! (p0 + q * kdim + k) =
          (if d2 q \<le> radius
           then w ! (p0 + q * kdim + k) + infl q * (vec ! k - w ! (p0 + q * kdim + k))
           else w ! (p0 + q * kdim + k))" if "q < Suc N" "k < kdim" for q k
  proof (cases "q = N")
    case True
    have xl: "p0 + N * kdim + k < length w" using that(2) Suc.prems(1) by simp
    have "w1 ! (p0 + N * kdim + k) = w ! (p0 + N * kdim + k)"
      using wf [OF xl] by simp
    then show ?thesis using True that(2) w2_nth [OF xl] by simp
  next
    case False
    then have qN: "q < N" using that(1) by simp
    have lt: "q * kdim + k < N * kdim" using cell_offset_less [OF qN that(2)] .
    then have xl: "p0 + q * kdim + k < length w" using pre(1) by simp
    show ?thesis using w2_nth [OF xl] lt wq [OF qN that(2)] by simp
  qed
  have B: "w2 ! x = w ! x" if "x < length w" "x < p0 \<or> p0 + Suc N * kdim \<le> x" for x
    using w2_nth [OF that(1)] wf [OF that(1)] that(2) by auto
  have C: "c2 ! (c0 + q) = (if d2 q \<le> radius then c ! (c0 + q) + infl q else c ! (c0 + q))"
    if "q < Suc N" for q
  proof (cases "q = N")
    case True
    have yl: "c0 + N < length c" using Suc.prems(2) by simp
    show ?thesis using True c2_nth [OF yl] cf [OF yl] by simp
  next
    case False
    then have qN: "q < N" using that by simp
    then have yl: "c0 + q < length c" using pre(2) by simp
    show ?thesis using c2_nth [OF yl] cq [OF qN] qN by simp
  qed
  have D: "c2 ! y = c ! y" if "y < length c" "y < c0 \<or> c0 + Suc N \<le> y" for y
    using c2_nth [OF that(1)] cf [OF that(1)] that(2) by auto
  show ?case
    using run2 lens A B C D by blast
qed

lemma c_trunc_nonneg: "0 \<le> x \<Longrightarrow> 0 \<le> c_trunc x"
  by (simp add: c_trunc_def)

lemma select_map_nonneg: "0 \<le> fst (select_map RAND_MAX som g)"
  by (simp add: select_map_def random_def c_trunc_nonneg)

lemma som_train_Inr:
  assumes "som_train RAND_MAX som vec g = Inr (som', g')"
  defines "jsom \<equiv> nat (fst (select_map RAND_MAX som g))"
  defines "t \<equiv> real (som_tcur som ! jsom * som_nsom som)"
  defines "radius0 \<equiv> real (som_nbin som) * exp (- t / real_of_int (som_nt som))"
  defines "lr \<equiv> som_learn som * exp (- t / real_of_int (som_nt som))"
  shows "jsom < som_nsom som"
    and "g' = snd (select_map RAND_MAX som g)"
    and "\<exists>w' c' ptr cnt.
      fold (\<lambda>i. fold (update_cell (som_kdim som) vec (fst (find_bmu som vec jsom))
                (snd (find_bmu som vec jsom)) (radius0 * radius0) lr i) [0..<som_nbin som])
         [0..<som_nbin som] (som_w som, som_c som, 0, jsom * som_nbin som * som_nbin som)
        = (w', c', ptr, cnt)
      \<and> som' = som\<lparr>som_tcur := (som_tcur som)[jsom := som_tcur som ! jsom + 1],
                     som_w := w', som_c := c'\<rparr>"
proof -
  obtain ji g1 where sel: "select_map RAND_MAX som g = (ji, g1)" by (cases "select_map RAND_MAX som g")
  have nonneg: "0 \<le> ji" using select_map_nonneg [of RAND_MAX som g] sel by simp
  have lt: "ji < int (som_nsom som)"
    using assms(1) sel by (simp add: som_train_def split: if_splits)
  show "jsom < som_nsom som" using lt nonneg sel by (simp add: jsom_def)
  show "g' = snd (select_map RAND_MAX som g)"
    using assms(1) sel lt by (auto simp: som_train_def Let_def split: prod.splits)
  show "\<exists>w' c' ptr cnt.
      fold (\<lambda>i. fold (update_cell (som_kdim som) vec (fst (find_bmu som vec jsom))
                (snd (find_bmu som vec jsom)) (radius0 * radius0) lr i) [0..<som_nbin som])
         [0..<som_nbin som] (som_w som, som_c som, 0, jsom * som_nbin som * som_nbin som)
        = (w', c', ptr, cnt)
      \<and> som' = som\<lparr>som_tcur := (som_tcur som)[jsom := som_tcur som ! jsom + 1],
                     som_w := w', som_c := c'\<rparr>"
    using assms(1) sel lt
    by (auto simp: som_train_def Let_def jsom_def t_def radius0_def lr_def split: prod.splits)
qed

lemma som_train_effect:
  assumes train: "som_train RAND_MAX som vec g = Inr (som', g')"
    and lw: "length (som_w som) = som_kdim som * som_nbin som * som_nbin som * som_nsom som"
    and lc: "length (som_c som) = som_nbin som * som_nbin som * som_nsom som"
  defines "jsom \<equiv> nat (fst (select_map RAND_MAX som g))"
  defines "t \<equiv> real (som_tcur som ! jsom * som_nsom som)"
  defines "radius0 \<equiv> real (som_nbin som) * exp (- t / real_of_int (som_nt som))"
  defines "lr \<equiv> som_learn som * exp (- t / real_of_int (som_nt som))"
  defines "d2 \<equiv> \<lambda>q. grid_dist (q div som_nbin som) (q mod som_nbin som)
      (fst (find_bmu som vec jsom)) (snd (find_bmu som vec jsom))"
  defines "infl \<equiv> \<lambda>q. exp (- d2 q * d2 q * 0.5 / (radius0 * radius0)) * lr"
  defines "n2 \<equiv> som_nbin som * som_nbin som"
  shows "\<forall>q k. q < n2 \<longrightarrow> k < som_kdim som \<longrightarrow> som_w som' ! (q * som_kdim som + k) =
          (if d2 q \<le> radius0 * radius0
           then som_w som ! (q * som_kdim som + k)
                + infl q * (vec ! k - som_w som ! (q * som_kdim som + k))
           else som_w som ! (q * som_kdim som + k))"
    and "\<forall>x<length (som_w som). n2 * som_kdim som \<le> x \<longrightarrow> som_w som' ! x = som_w som ! x"
    and "\<forall>q<n2. som_c som' ! (jsom * n2 + q) =
          (if d2 q \<le> radius0 * radius0 then som_c som ! (jsom * n2 + q) + infl q
           else som_c som ! (jsom * n2 + q))"
    and "\<forall>y<length (som_c som). y < jsom * n2 \<or> jsom * n2 + n2 \<le> y \<longrightarrow> som_c som' ! y = som_c som ! y"
proof -
  note info = som_train_Inr [OF train]
  have js: "jsom < som_nsom som" using info(1) by (simp add: jsom_def)
  from info(3) obtain w' c' ptr cnt where
    run: "fold (\<lambda>i. fold (update_cell (som_kdim som) vec (fst (find_bmu som vec jsom))
                (snd (find_bmu som vec jsom)) (radius0 * radius0) lr i) [0..<som_nbin som])
         [0..<som_nbin som] (som_w som, som_c som, 0, jsom * n2) = (w', c', ptr, cnt)"
    and som': "som' = som\<lparr>som_tcur := (som_tcur som)[jsom := som_tcur som ! jsom + 1],
                     som_w := w', som_c := c'\<rparr>"
    unfolding jsom_def t_def radius0_def lr_def n2_def by (auto simp: mult.assoc)
  have "n2 * som_kdim som * 1 \<le> n2 * som_kdim som * som_nsom som"
    using js by (intro mult_le_mono2) simp
  then have b1: "0 + n2 * som_kdim som \<le> length (som_w som)"
    by (simp add: lw n2_def mult.commute mult.left_commute)
  have "Suc jsom * n2 \<le> som_nsom som * n2"
    using js by (intro mult_le_mono1) simp
  then have b2: "jsom * n2 + n2 \<le> length (som_c som)"
    by (simp add: lc n2_def mult.commute add.commute)
  from update_loop [OF b1 b2, of vec "fst (find_bmu som vec jsom)" "snd (find_bmu som vec jsom)"
      "radius0 * radius0" lr "som_nbin som"]
  obtain w2 c2 where
    run2: "fold (\<lambda>q. update_cell (som_kdim som) vec (fst (find_bmu som vec jsom))
              (snd (find_bmu som vec jsom)) (radius0 * radius0) lr (q div som_nbin som)
              (q mod som_nbin som)) [0..<n2] (som_w som, som_c som, 0, jsom * n2)
        = (w2, c2, 0 + n2 * som_kdim som, jsom * n2 + n2)"
    and W: "\<forall>q<n2. \<forall>k<(som_kdim som). w2 ! (0 + q * som_kdim som + k) =
          (if d2 q \<le> radius0 * radius0
           then som_w som ! (0 + q * som_kdim som + k)
                + infl q * (vec ! k - som_w som ! (0 + q * som_kdim som + k))
           else som_w som ! (0 + q * som_kdim som + k))"
    and WF: "\<forall>x<length (som_w som). x < 0 \<or> 0 + n2 * som_kdim som \<le> x \<longrightarrow> w2 ! x = som_w som ! x"
    and C: "\<forall>q<n2. c2 ! (jsom * n2 + q) =
          (if d2 q \<le> radius0 * radius0 then som_c som ! (jsom * n2 + q) + infl q
           else som_c som ! (jsom * n2 + q))"
    and CF: "\<forall>y<length (som_c som). y < jsom * n2 \<or> jsom * n2 + n2 \<le> y \<longrightarrow> c2 ! y = som_c som ! y"
    unfolding d2_def infl_def by blast
  have "w' = w2 \<and> c' = c2"
    using run run2 unfolding n2_def fold_grid by simp
  then have eq: "som_w som' = w2" "som_c som' = c2" using som' by simp_all
  show "\<forall>q k. q < n2 \<longrightarrow> k < som_kdim som \<longrightarrow> som_w som' ! (q * som_kdim som + k) =
          (if d2 q \<le> radius0 * radius0
           then som_w som ! (q * som_kdim som + k)
                + infl q * (vec ! k - som_w som ! (q * som_kdim som + k))
           else som_w som ! (q * som_kdim som + k))"
    using W unfolding eq by simp
  show "\<forall>x<length (som_w som). n2 * som_kdim som \<le> x \<longrightarrow> som_w som' ! x = som_w som ! x"
    using WF unfolding eq by simp
  show "\<forall>q<n2. som_c som' ! (jsom * n2 + q) =
          (if d2 q \<le> radius0 * radius0 then som_c som ! (jsom * n2 + q) + infl q
           else som_c som ! (jsom * n2 + q))"
    using C unfolding eq by simp
  show "\<forall>y<length (som_c som). y < jsom * n2 \<or> jsom * n2 + n2 \<le> y \<longrightarrow> som_c som' ! y = som_c som ! y"
    using CF unfolding eq by simp
qed



subsection \<open>C2: the goodness bit\<close>

text \<open>
  C2. The claim: a row is good (reader mask 2) exactly when some position selected by
  \<open>good_mask\<close> carries a \<^verbatim>\<open>'1'\<close> in the mask string. The code tests \<^verbatim>\<open>mask & (i<<1)\<close>
  where \<^verbatim>\<open>parse_mask\<close> built the mask with \<^verbatim>\<open>1<<i\<close>. With the default good mask
  \<^verbatim>\<open>"010"\<close> the row mask \<^verbatim>\<open>"0001"\<close> is read as good although position 3 is not selected,
  and with the good mask \<^verbatim>\<open>"100"\<close> the row mask \<^verbatim>\<open>"100"\<close> is read as not good although
  position 0 is selected and set.
\<close>

theorem str_mask_set_shift_swapped:
  "annots_reader_next_mask (parse_mask ''010'') ''0001'' = 2
   \<and> \<not> selected_bit_set ''0001'' (parse_mask ''010'')
   \<and> annots_reader_next_mask (parse_mask ''100'') ''100'' = 1
   \<and> selected_bit_set ''100'' (parse_mask ''100'')"
  by (simp add: annots_reader_next_mask_def parse_mask_def str_mask_set_def
      selected_bit_set_def upt_rec bit_numeral_Bit0_iff)

subsection \<open>C4: indel classes\<close>

text \<open>
  C4, as stated, fails: the code has no test for \<open>ndel = 0\<close>. With \<open>ndel = 0\<close>,
  \<open>nrep = 2\<close> and \<open>nlen = 2\<close> the class is 1, not 2.
\<close>

theorem determine_variant_class_ndel_zero:
  "determine_variant_class (\<lambda>_. 0) False ''A'' ''A'' (Some (0, 2, 2)) = 1"
  by (simp add: determine_variant_class_def c_rem_def)

text \<open>
  C4, amended. For an indel with computed context \<open>(nrep, nlen, ndel)\<close>: if
  \<open>nlen \<le> 1\<close> or \<open>nrep \<le> 1\<close> the class is 2; otherwise, if \<open>|ndel| mod nlen = 0\<close>
  (which includes \<open>ndel = 0\<close>) the class is 1; otherwise it is 0.
\<close>

theorem determine_variant_class_indel:
  "(nlen \<le> 1 \<or> nrep \<le> 1 \<longrightarrow>
      determine_variant_class f False ref alt (Some (ndel, nrep, nlen)) = 2)
   \<and> (1 < nlen \<and> 1 < nrep \<and> \<bar>ndel\<bar> mod nlen = 0 \<longrightarrow>
      determine_variant_class f False ref alt (Some (ndel, nrep, nlen)) = 1)
   \<and> (1 < nlen \<and> 1 < nrep \<and> \<bar>ndel\<bar> mod nlen \<noteq> 0 \<longrightarrow>
      determine_variant_class f False ref alt (Some (ndel, nrep, nlen)) = 0)"
proof -
  have rem: "c_rem \<bar>ndel\<bar> nlen = \<bar>ndel\<bar> mod nlen" if "1 < nlen"
  proof (cases "ndel = 0")
    case True
    then show ?thesis by (simp add: c_rem_def)
  next
    case False
    with that show ?thesis by (simp add: c_rem_def)
  qed
  show ?thesis
    using rem by (auto simp: determine_variant_class_def)
qed

theorem determine_variant_class_indel_witness:
  "determine_variant_class (\<lambda>_. 0) False ''AT'' ''A'' (Some (- 1, 1, 1)) = 2
   \<and> determine_variant_class (\<lambda>_. 0) False ''ATAT'' ''A'' (Some (- 4, 3, 2)) = 1
   \<and> determine_variant_class (\<lambda>_. 0) False ''ATA'' ''A'' (Some (- 3, 3, 2)) = 0"
  using determine_variant_class_indel [of 1 1 "\<lambda>_. 0" "''AT''" "''A''" "- 1"]
    determine_variant_class_indel [of 2 3 "\<lambda>_. 0" "''ATAT''" "''A''" "- 4"]
    determine_variant_class_indel [of 2 3 "\<lambda>_. 0" "''ATA''" "''A''" "- 3"]
  by simp

lemmas som_train_eval =
  som_train_def select_map_def random_def c_trunc_def find_bmu_def bmu_cell_def sq_dist_def
  update_cell_def grid_dist_def move_weights_def Let_def upt_rec

subsection \<open>The update of a training step\<close>

text \<open>
  What a training step does (with \<open>nt > 0\<close>, as it is whenever a vector was sampled). Let
  \<open>(i*, j*)\<close> be the best matching unit found in the selected map, \<open>t = t[jsom] * nsom\<close>,
  \<open>radius_sq = (nbin * exp (-t/nt))\<^sup>2\<close> and \<open>lr = learn * exp (-t/nt)\<close>. For every grid
  position \<open>(i, j)\<close> with \<open>d2 = (i-i*)\<^sup>2 + (j-j*)\<^sup>2 \<le> radius_sq\<close> the influence is
  \<open>exp (-(d2*d2) / (2*radius_sq)) * lr\<close>; the count at \<open>(i, j)\<close> of the selected map grows by
  the influence; and each weight \<open>k\<close> of the prototype at offset \<open>(i*nbin + j)*kdim\<close> from
  \<^verbatim>\<open>som->w\<close>, which is the cell \<open>(i, j)\<close> of the first map, moves by
  \<open>influence * (v[k] - w[k])\<close>.
\<close>

lemma som_train_update:
  assumes train: "som_train RAND_MAX som vec g = Inr (som', g')"
    and lw: "length (som_w som) = som_kdim som * som_nbin som * som_nbin som * som_nsom som"
    and lc: "length (som_c som) = som_nbin som * som_nbin som * som_nsom som"
    and nt: "0 < som_nt som"
    and ij: "i < som_nbin som" "j < som_nbin som"
  defines "jsom \<equiv> nat (fst (select_map RAND_MAX som g))"
  defines "d2 \<equiv> grid_dist i j (fst (find_bmu som vec jsom)) (snd (find_bmu som vec jsom))"
  defines "t \<equiv> real (som_tcur som ! jsom * som_nsom som)"
  defines "radius_sq \<equiv> (real (som_nbin som) * exp (- t / real_of_int (som_nt som)))\<^sup>2"
  defines "lr \<equiv> som_learn som * exp (- t / real_of_int (som_nt som))"
  defines "influence \<equiv> exp (- (d2 * d2) / (2 * radius_sq)) * lr"
  defines "cnt \<equiv> jsom * som_nbin som * som_nbin som + i * som_nbin som + j"
  defines "ptr \<equiv> (i * som_nbin som + j) * som_kdim som"
  assumes near: "d2 \<le> radius_sq"
  shows "som_c som' ! cnt = som_c som ! cnt + influence
    \<and> (\<forall>k<(som_kdim som). som_w som' ! (ptr + k) =
          som_w som ! (ptr + k) + influence * (vec ! k - som_w som ! (ptr + k)))"
proof -
  define q where "q = i * som_nbin som + j"
  have q: "q < som_nbin som * som_nbin som"
    unfolding q_def using cell_offset_less [OF ij] .
  have dm: "q div som_nbin som = i" "q mod som_nbin som = j"
    using ij by (simp_all add: q_def)
  have r2: "radius_sq = real (som_nbin som) * exp (- t / real_of_int (som_nt som))
      * (real (som_nbin som) * exp (- t / real_of_int (som_nt som)))"
    by (simp add: radius_sq_def power2_eq_square)
  have infl: "exp (- d2 * d2 * 0.5 / radius_sq) * lr = influence"
    by (simp add: influence_def)
  note eff = som_train_effect [OF train lw lc]
  have c: "som_c som' ! cnt = som_c som ! cnt + influence"
    using eff(3) [rule_format, OF q] near infl
    unfolding dm r2 [symmetric] jsom_def [symmetric] t_def [symmetric] lr_def [symmetric]
      d2_def [symmetric]
    by (simp add: cnt_def q_def add.assoc mult.assoc)
  have w: "som_w som' ! (ptr + k) =
          som_w som ! (ptr + k) + influence * (vec ! k - som_w som ! (ptr + k))"
    if "k < som_kdim som" for k
    using eff(1) [rule_format, OF q that] near infl
    unfolding dm r2 [symmetric] jsom_def [symmetric] t_def [symmetric] lr_def [symmetric]
      d2_def [symmetric]
    by (simp add: ptr_def q_def)
  show ?thesis using c w by blast
qed

text \<open>The step on the single \<open>2 \<times> 2\<close> map, for the vector \<open>[1]\<close>: the best matching unit
  is \<open>(1, 1)\<close>, and the cell \<open>(0, 0)\<close> is at \<open>d2 = 2\<close>.\<close>

lemma som_one_map_train:
  "som_train 2147483647 som_one_map [1] (\<lambda>n. 0) =
     Inr (som_one_map\<lparr>som_tcur := [1],
            som_w := [exp (- 1 / 2) / 10, exp (- 1 / 8) / 10, exp (- 1 / 8) / 10, 1],
            som_c := [exp (- 1 / 2) / 10, exp (- 1 / 8) / 10, exp (- 1 / 8) / 10, 1 / 10]\<rparr>, \<lambda>n. 0)"
  by (simp add: som_one_map_def som_train_eval)

lemma som_one_map_update:
  "som_c (som_one_map\<lparr>som_tcur := [1],
            som_w := [exp (- 1 / 2) / 10, exp (- 1 / 8) / 10, exp (- 1 / 8) / 10, 1],
            som_c := [exp (- 1 / 2) / 10, exp (- 1 / 8) / 10, exp (- 1 / 8) / 10, 1 / 10]\<rparr>) ! 0
     = exp (- (2 * 2) / (2 * 4)) * (1 / 10)"
  using som_train_update [OF som_one_map_train, of 0 0]
  by (simp add: som_one_map_def som_train_eval)

subsection \<open>C7: the frame of a training step\<close>

text \<open>
  C7. The claim: a training step changes weights and counts of the selected map only. The
  best matching unit is searched from \<^verbatim>\<open>som->w + jsom*nbin*nbin*kdim\<close> and the counts are
  updated from \<^verbatim>\<open>som->c + jsom*nbin*nbin\<close>, but the weight update starts at \<^verbatim>\<open>som->w\<close>.
  With two maps and map 1 selected, the count of map 1 at its best matching unit \<open>(0, 1)\<close>
  grows (index 5), the weights of map 1 (indices 4 to 7) stay as they were, and the weight
  of map 0 at \<open>(0, 1)\<close> moves from \<open>1/2\<close> to \<open>11/20\<close>.
\<close>

theorem som_train_moves_first_map:
  "(case som_train 2147483647 som_two_maps [1] (\<lambda>n. 1500000000) of
      Inl e \<Rightarrow> False
    | Inr (som', g') \<Rightarrow>
        fst (select_map 2147483647 som_two_maps (\<lambda>n. 1500000000)) = 1
        \<and> som_w som_two_maps ! 1 = 1 / 2 \<and> som_w som' ! 1 = 11 / 20
        \<and> drop 4 (som_w som') = drop 4 (som_w som_two_maps)
        \<and> som_c som' ! 5 = 1 / 10)"
  by (simp add: som_two_maps_def som_train_eval)

subsection \<open>C9: the influence on a cell\<close>

text \<open>
  C9. The claim: a cell within the radius receives the influence
  \<open>exp (-(d2*d2) / (2*radius_sq)) * lr\<close>, each of its weights moves by
  \<open>influence * (v[k] - w[k])\<close> and its count grows by the influence. The influence and the
  count are as claimed; the weights that move are those of the first map (the defect of
  C7). With two maps and map 1 selected, for the vector \<open>[1]\<close>: the best matching unit of
  map 1 is \<open>(0, 1)\<close>, the cell \<open>(0, 0)\<close> of map 1 (index 4) is at \<open>d2 = 1\<close> with
  \<open>radius_sq = 4\<close> and \<open>lr = 1/10\<close>; its count grows by the influence, its weight stays
  \<open>1/2\<close> instead of moving, and the weight of the cell \<open>(0, 0)\<close> of map 0 moves by the
  influence instead.
\<close>

theorem som_train_selected_cell_weights:
  "(case som_train 2147483647 som_two_maps [1] (\<lambda>n. 1500000000) of
      Inl e \<Rightarrow> False
    | Inr (som', g') \<Rightarrow>
        find_bmu som_two_maps [1] 1 = (0, 1)
        \<and> som_c som' ! 4 = som_c som_two_maps ! 4 + exp (- (1 * 1) / (2 * 4)) * (1 / 10)
        \<and> som_w som' ! 4 = som_w som_two_maps ! 4
        \<and> som_w som_two_maps ! 4
            + exp (- (1 * 1) / (2 * 4)) * (1 / 10) * ([1] ! 0 - som_w som_two_maps ! 4)
            \<noteq> som_w som_two_maps ! 4
        \<and> som_w som' ! 0 = som_w som_two_maps ! 0
            + exp (- (1 * 1) / (2 * 4)) * (1 / 10) * ([1] ! 0 - som_w som_two_maps ! 0))"
  by (simp add: som_two_maps_def som_train_eval)


subsection \<open>C5: percentiles\<close>

text \<open>The state of the scan after the first \<open>m\<close> values.\<close>

lemma pctl_fold_take:
  assumes "m \<le> length vals"
  shows "fold (pctl_step nall lo hi) (take m vals) (0, HUGE_VAL, HUGE_VAL) =
    (m,
     (if m = 0 then HUGE_VAL
      else case rev (filter (\<lambda>k. 100 * real k / real nall < lo) [1..<m + 1]) of
             [] \<Rightarrow> Fin (vals ! 0) | k # ks \<Rightarrow> Fin (vals ! (k - 1))),
     (case filter (\<lambda>k. hi < 100 * real k / real nall) [1..<m + 1] of
        [] \<Rightarrow> HUGE_VAL | k # ks \<Rightarrow> Fin (vals ! (k - 1))))"
  using assms
proof (induction m)
  case 0
  show ?case by simp
next
  case (Suc m)
  then have m: "m < length vals" by simp
  have tk: "take (Suc m) vals = take m vals @ [vals ! m]"
    using m by (simp add: take_Suc_conv_app_nth)
  have up: "[1..<Suc m + 1] = [1..<m + 1] @ [m + 1]" by simp
  show ?case
    unfolding tk fold_append o_apply
    apply (subst Suc.IH)
    using m apply simp
    unfolding up filter_append rev_append
    apply (simp add: pctl_step_def split: list.splits)
    done
qed

lemma pctl_scan_eq:
  assumes "vals \<noteq> []"
  shows "pctl_scan nall lo hi vals =
    (Fin (case last_value_where (\<lambda>k. 100 * real k / real nall < lo) vals of
            None \<Rightarrow> hd vals | Some v \<Rightarrow> v),
     Fin (case first_value_where (\<lambda>k. hi < 100 * real k / real nall) vals of
            None \<Rightarrow> last vals | Some v \<Rightarrow> v))"
proof -
  define lows where "lows = rev (filter (\<lambda>k. 100 * real k / real nall < lo) [1..<length vals + 1])"
  define highs where "highs = filter (\<lambda>k. hi < 100 * real k / real nall) [1..<length vals + 1]"
  have len: "length vals \<noteq> 0" using assms by simp
  have hd: "vals ! 0 = hd vals" using assms by (simp add: hd_conv_nth)
  have "fold (pctl_step nall lo hi) (take (length vals) vals) (0, HUGE_VAL, HUGE_VAL) =
    (length vals,
     (case lows of [] \<Rightarrow> Fin (vals ! 0) | k # ks \<Rightarrow> Fin (vals ! (k - 1))),
     (case highs of [] \<Rightarrow> HUGE_VAL | k # ks \<Rightarrow> Fin (vals ! (k - 1))))"
    unfolding lows_def highs_def
    by (subst pctl_fold_take) (simp_all only: le_refl len if_False)
  then have f: "fold (pctl_step nall lo hi) vals (0, HUGE_VAL, HUGE_VAL) =
    (length vals,
     (case lows of [] \<Rightarrow> Fin (vals ! 0) | k # ks \<Rightarrow> Fin (vals ! (k - 1))),
     (case highs of [] \<Rightarrow> HUGE_VAL | k # ks \<Rightarrow> Fin (vals ! (k - 1))))"
    by simp
  have l: "last_value_where (\<lambda>k. 100 * real k / real nall < lo) vals =
      (case lows of [] \<Rightarrow> None | k # ks \<Rightarrow> Some (vals ! (k - 1)))"
    by (simp only: last_value_where_def lows_def)
  have h: "first_value_where (\<lambda>k. hi < 100 * real k / real nall) vals =
      (case highs of [] \<Rightarrow> None | k # ks \<Rightarrow> Some (vals ! (k - 1)))"
    by (simp only: first_value_where_def highs_def)
  show ?thesis
    unfolding pctl_scan_def f l h using assms hd
    by (cases lows; cases highs) simp_all
qed

text \<open>
  C5, amended. For a column with \<open>nall\<close> non-missing values, scanned in sorted order with
  the running counter \<open>k\<close>: \<open>scale_min\<close> is the last value at which
  \<open>100*k/nall < lo_pctl\<close>, or the first value when there is none; \<open>scale_max\<close> is the first
  value at which \<open>100*k/nall > hi_pctl\<close>, and the last value when that threshold is never
  crossed.
\<close>

theorem create_dists_percentiles:
  assumes "vals \<noteq> []"
  shows "pctl_scan (length vals) lo_pctl hi_pctl vals =
    (Fin (case last_value_where (\<lambda>k. 100 * real k / real (length vals) < lo_pctl) vals of
            None \<Rightarrow> hd vals | Some v \<Rightarrow> v),
     Fin (case first_value_where (\<lambda>k. hi_pctl < 100 * real k / real (length vals)) vals of
            None \<Rightarrow> last vals | Some v \<Rightarrow> v))"
  using assms by (rule pctl_scan_eq)

theorem create_dists_percentiles_witness:
  "pctl_scan 5 (1 / 10) (999 / 10) [- 1, 0, 1, 2, 100] = (Fin (- 1), Fin 100)"
proof -
  have l: "length [- 1, 0, 1, 2, 100 :: real] = 5" by simp
  show ?thesis
    using create_dists_percentiles [of "[- 1, 0, 1, 2, 100]" "1 / 10" "999 / 10", unfolded l]
    by (simp add: last_value_where_def first_value_where_def upt_rec)
qed

text \<open>
  C5, as stated, fails for \<open>scale_min\<close>: the code keeps overwriting \<open>scale_min\<close> while
  \<open>100*k/nall < lo_pctl\<close>, so it ends at the last value below the threshold, not at the
  first value that reaches it. With the percentiles of \<^verbatim>\<open>main_vcfsom\<close> (0.1 and 99.9) and
  the 1001 sorted values \<open>0, 1, \<dots>, 1\<close>, the first value at which \<open>100*k/nall \<ge> 0.1\<close> is
  the second one, 1; the code gives \<open>scale_min = 0\<close>.
\<close>

lemma no_late_low_rank:
  "filter (\<lambda>k. 100 * real k / 1001 < 1 / 10) [2..<1002] = []"
  unfolding filter_empty_conv by (auto simp del: upt_rec_numeral)

theorem create_dists_scale_min_below:
  "fst (pctl_scan 1001 (1 / 10) (999 / 10) (0 # replicate 1000 1)) = Fin 0
   \<and> first_value_where (\<lambda>k. 1 / 10 \<le> 100 * real k / 1001) (0 # replicate 1000 1) = Some 1"
proof -
  have len: "length (0 # replicate 1000 (1 :: real)) + 1 = 1002" by simp
  have lt: "(1::nat) < 1002" "(2::nat) < 1002" by simp_all
  have s3: "Suc 2 = 3" by simp
  have up2: "[1..<1002] = 1 # [2..<1002]"
    using upt_conv_Cons [OF lt(1)] by (simp only: Suc_1)
  have up3: "[2..<1002] = 2 # [3..<1002]"
    using upt_conv_Cons [OF lt(2)] by (simp only: s3)
  have a: "last_value_where (\<lambda>k. 100 * real k / 1001 < 1 / 10) (0 # replicate 1000 1) = Some 0"
    unfolding last_value_where_def len up2 by (simp add: no_late_low_rank del: upt_rec_numeral)
  have b: "first_value_where (\<lambda>k. 1 / 10 \<le> 100 * real k / 1001) (0 # replicate 1000 1) = Some 1"
    unfolding first_value_where_def len up2 up3 by (simp del: upt_rec_numeral)
  have "pctl_scan 1001 (1 / 10) (999 / 10) (0 # replicate 1000 1) =
    (Fin (case last_value_where (\<lambda>k. 100 * real k / real 1001 < 1 / 10) (0 # replicate 1000 1) of
            None \<Rightarrow> hd (0 # replicate 1000 1) | Some v \<Rightarrow> v),
     Fin (case first_value_where (\<lambda>k. 999 / 10 < 100 * real k / real 1001) (0 # replicate 1000 1) of
            None \<Rightarrow> last (0 # replicate 1000 1) | Some v \<Rightarrow> v))"
    by (rule pctl_scan_eq) simp
  then have "fst (pctl_scan 1001 (1 / 10) (999 / 10) (0 # replicate 1000 1)) = Fin 0"
    using a by (simp del: upt_rec_numeral)
  then show ?thesis using b by (simp del: upt_rec_numeral)
qed


subsection \<open>C10: the training budget\<close>

lemma som_init_rand_nt: "som_nt (fst (som_init_rand RAND_MAX srandom som seed g)) = som_nt som"
  by (simp add: som_init_rand_def Let_def split: prod.splits)

text \<open>The rounding at a value whose binary exponent \<open>k\<close> is known, and the roundings of
  the two example tables.\<close>

lemma double_round_eq:
  assumes "2 powr real_of_int k \<le> \<bar>x\<bar>" "\<bar>x\<bar> < 2 powr real_of_int (k + 1)" "- 1022 \<le> k"
  shows "double_round x =
    2 powr (real_of_int k - 52) * of_int (round_half_even (x / 2 powr (real_of_int k - 52)))"
proof -
  have pos: "0 < \<bar>x\<bar>" using assms(1) powr_gt_zero [of 2 "real_of_int k"] by linarith
  have "\<lfloor>log 2 \<bar>x\<bar>\<rfloor> = k"
    using floor_log_eq_powr_iff [of "\<bar>x\<bar>" 2 k] pos assms(1,2) by simp
  then have "double_ulp x = 2 powr (real_of_int k - 52)"
    using assms(3) by (simp add: double_ulp_def)
  then show ?thesis using pos by (simp add: double_round_def)
qed

lemmas double_round_eval = powr_minus powr_numeral inverse_eq_divide round_half_even_def

lemma round_sub_03:
  "double_round (1 - 5404319552844595 / 18014398509481984) = 3152519739159347 / 4503599627370496"
  using double_round_eq [of "- 1" "1 - 5404319552844595 / 18014398509481984"]
  by (simp add: double_round_eval)

lemma round_fixed_90:
  "double_round (90 * (3152519739159347 / 4503599627370496)) = 8866461766385663 / 140737488355328"
  using double_round_eq [of 5 "90 * (3152519739159347 / 4503599627370496)"]
  by (simp add: double_round_eval)

lemma round_learn_90:
  "double_round (90 * (5404319552844595 / 18014398509481984)) = 27"
  using double_round_eq [of 4 "90 * (5404319552844595 / 18014398509481984)"]
  by (simp add: double_round_eval)

lemma round_sub_029:
  "double_round (1 - 5224175567749775 / 18014398509481984) = 799388933858263 / 1125899906842624"
  using double_round_eq [of "- 1" "1 - 5224175567749775 / 18014398509481984"]
  by (simp add: double_round_eval)

lemma round_fixed_100:
  "double_round (100 * (799388933858263 / 1125899906842624)) = 71"
  using double_round_eq [of 6 "100 * (799388933858263 / 1125899906842624)"]
  by (simp add: double_round_eval)

lemma round_learn_100:
  "double_round (100 * (5224175567749775 / 18014398509481984)) = 8162774324609023 / 281474976710656"
  using double_round_eq [of 4 "100 * (5224175567749775 / 18014398509481984)"]
  by (simp add: double_round_eval)

text \<open>
  C10. Before the sampling pass, the map's \<open>nt\<close> is \<^verbatim>\<open>args->ngood\<close> whenever the
  configured \<open>nt\<close> is zero or exceeds \<open>ngood\<close>, and a configured \<open>nt\<close> within range is
  kept. The capacities of the fixed and the learn reservoir are computed from that value,
  the clamped one in the first case: \<open>nt * (1 - learn_frac)\<close> and \<open>nt * learn_frac\<close> in
  \<^verbatim>\<open>double\<close> arithmetic, each operation rounded, and truncated to \<^verbatim>\<open>int\<close>.
\<close>

theorem som_init_clamps_nt:
  "case som_init_head rnd RAND_MAX srandom args g of
     (good_som, fixed_max, learn_max, st0) \<Rightarrow>
       (som_nt (args_som args) = 0 \<or> args_ngood args < som_nt (args_som args) \<longrightarrow>
          som_nt good_som = args_ngood args
          \<and> fixed_max = c_trunc (rnd (real_of_int (args_ngood args)
                                        * rnd (1 - args_nt_learn_frac args)))
          \<and> learn_max = c_trunc (rnd (real_of_int (args_ngood args) * args_nt_learn_frac args)))
       \<and> (som_nt (args_som args) \<noteq> 0 \<and> som_nt (args_som args) \<le> args_ngood args \<longrightarrow>
          som_nt good_som = som_nt (args_som args)
          \<and> fixed_max = c_trunc (rnd (real_of_int (som_nt (args_som args))
                                        * rnd (1 - args_nt_learn_frac args)))
          \<and> learn_max = c_trunc (rnd (real_of_int (som_nt (args_som args))
                                        * args_nt_learn_frac args)))"
proof -
  define som1 where "som1 = som_init1 (args_ngood args) (args_nann_som args) (args_som args)"
  have nt1: "som_nt som1 =
      (if som_nt (args_som args) = 0 \<or> args_ngood args < som_nt (args_som args)
       then args_ngood args else som_nt (args_som args))"
    by (simp add: som1_def som_init1_def Let_def)
  obtain good_som g1 where r: "som_init_rand RAND_MAX srandom som1 (args_rand_seed args) g
      = (good_som, g1)"
    by (cases "som_init_rand RAND_MAX srandom som1 (args_rand_seed args) g")
  have nt: "som_nt good_som = som_nt som1"
    using som_init_rand_nt [of RAND_MAX srandom som1 "args_rand_seed args" g] r by simp
  show ?thesis
    unfolding som_init_head_def som1_def [symmetric] r
    by (auto simp: nt nt1 ngood_fixed_max_def ngood_learn_max_def)
qed

text \<open>
  With IEEE rounding: 90 good sites and \<^verbatim>\<open>-n 0,0.3\<close> give \<open>nt = 90\<close> and the capacities
  62 and 27, where arithmetic without rounding would give 63 and 27;
  \<^verbatim>\<open>-n 100,0.29\<close> with 1000 good sites keeps \<open>nt = 100\<close> and gives 71 and 28, where
  arithmetic without rounding would give 71 and 29.
\<close>

theorem som_init_clamps_nt_witness:
  "(case som_init_head double_round 2147483647 (\<lambda>seed n. 0) args_ninety (\<lambda>n. 0) of
      (good_som, fixed_max, learn_max, st0) \<Rightarrow>
        som_nt good_som = 90 \<and> fixed_max = 62 \<and> learn_max = 27)
   \<and> (case som_init_head double_round 2147483647 (\<lambda>seed n. 0) args_hundred (\<lambda>n. 0) of
      (good_som, fixed_max, learn_max, st0) \<Rightarrow>
        som_nt good_som = 100 \<and> fixed_max = 71 \<and> learn_max = 28)"
proof -
  have a: "args_ngood args_ninety = 90" "som_nt (args_som args_ninety) = 0"
    "args_nt_learn_frac args_ninety = 5404319552844595 / 18014398509481984"
    by (simp_all add: args_ninety_def args_two_annots_def)
  have b: "args_ngood args_hundred = 1000" "som_nt (args_som args_hundred) = 100"
    "args_nt_learn_frac args_hundred = 5224175567749775 / 18014398509481984"
    by (simp_all add: args_hundred_def args_two_annots_def)
  have f1: "c_trunc (double_round (real_of_int 90
      * double_round (1 - 5404319552844595 / 18014398509481984))) = 62"
    by (simp only: of_int_numeral round_sub_03 round_fixed_90) (simp add: c_trunc_def)
  have l1: "c_trunc (double_round (real_of_int 90
      * (5404319552844595 / 18014398509481984))) = 27"
    by (simp only: of_int_numeral round_learn_90) (simp add: c_trunc_def)
  have f2: "c_trunc (double_round (real_of_int 100
      * double_round (1 - 5224175567749775 / 18014398509481984))) = 71"
    by (simp only: of_int_numeral round_sub_029 round_fixed_100) (simp add: c_trunc_def)
  have l2: "c_trunc (double_round (real_of_int 100
      * (5224175567749775 / 18014398509481984))) = 28"
    by (simp only: of_int_numeral round_learn_100) (simp add: c_trunc_def)
  have "case som_init_head double_round 2147483647 (\<lambda>seed n. 0) args_ninety (\<lambda>n. 0) of
      (good_som, fixed_max, learn_max, st0) \<Rightarrow>
        som_nt good_som = 90 \<and> fixed_max = 62 \<and> learn_max = 27"
    using som_init_clamps_nt [where rnd = double_round and RAND_MAX = 2147483647
        and srandom = "\<lambda>seed n. 0" and args = args_ninety and g = "\<lambda>n. 0",
        unfolded a f1 l1]
    by (simp split: prod.splits)
  moreover have "case som_init_head double_round 2147483647 (\<lambda>seed n. 0) args_hundred (\<lambda>n. 0) of
      (good_som, fixed_max, learn_max, st0) \<Rightarrow>
        som_nt good_som = 100 \<and> fixed_max = 71 \<and> learn_max = 28"
    using som_init_clamps_nt [where rnd = double_round and RAND_MAX = 2147483647
        and srandom = "\<lambda>seed n. 0" and args = args_hundred and g = "\<lambda>n. 0",
        unfolded b f2 l2]
    by (simp split: prod.splits)
  ultimately show ?thesis by simp
qed


subsection \<open>C6: normalisation of the counts\<close>

text \<open>
  C6. The claim: after \<^verbatim>\<open>som_norm\<close> every map's counts lie in \<open>[0, 1]\<close> with maximum 0 or
  1. The search for the maximum of map \<open>j\<close> compares with \<^verbatim>\<open>som->c[i]\<close>, a count of map 0,
  and stores \<^verbatim>\<open>c[i]\<close>, a count of map \<open>j\<close>. With two maps whose counts are
  \<open>[3/10, 0, 0, 0]\<close> and \<open>[1/10, 1/2, 1/5, 1/10]\<close>, the second map is divided by \<open>1/10\<close>
  and its counts become \<open>[1, 5, 2, 1]\<close>.
\<close>

theorem som_norm_wrong_maximum:
  "som_c (som_norm som_two_trained) = [1, 0, 0, 0, 1, 5, 2, 1]"
  by (simp add: som_norm_def som_two_trained_def som_norm_map_def som_norm_max_def upt_rec)

text \<open>
  With a single map, the default, \<^verbatim>\<open>som->c\<close> and \<^verbatim>\<open>c\<close> are the same array, and the counts,
  which are sums of non-negative influences, are normalised as the claim says.
\<close>

lemma norm_max_first_map:
  assumes "m \<le> length c"
  shows "fold (\<lambda>i mx. if mx < c ! i then c ! (0 * n2 + i) else mx) [0..<m] (a :: real)
    = Max (insert a (set (take m c)))"
  using assms
proof (induction m)
  case 0
  show ?case by simp
next
  case (Suc m)
  then have m: "m < length c" by simp
  have tk: "set (take (Suc m) c) = insert (c ! m) (set (take m c))"
    using m by (simp add: take_Suc_conv_app_nth)
  define M where "M = Max (insert a (set (take m c)))"
  have "Max (insert a (set (take (Suc m) c))) = max (c ! m) M"
    unfolding tk M_def by (subst insert_commute) (rule Max_insert, simp_all)
  moreover have "fold (\<lambda>i mx. if mx < c ! i then c ! (0 * n2 + i) else mx) [0..<Suc m] a
      = (if M < c ! m then c ! m else M)"
    using Suc.IH m by (simp add: M_def)
  ultimately show ?case by (simp add: max_def not_less)
qed

lemma length_fold_rescale [simp]:
  "length (fold (\<lambda>i c. c[f i := h i c]) js c0) = length c0"
  by (induction js arbitrary: c0) simp_all

lemma norm_div_nth:
  assumes "off + m \<le> length c" "x < length c"
  shows "fold (\<lambda>i c. c[off + i := c ! (off + i) / mx]) [0..<m] c ! x =
    (if off \<le> x \<and> x < off + m then c ! x / mx else c ! x)"
  using assms
proof (induction m arbitrary: x)
  case 0
  then show ?case by auto
next
  case (Suc m)
  have len: "length (fold (\<lambda>i c. c[off + i := c ! (off + i) / mx]) [0..<m] c) = length c"
    by simp
  have old: "fold (\<lambda>i c. c[off + i := c ! (off + i) / mx]) [0..<m] c ! (off + m) = c ! (off + m)"
    using Suc.IH [of "off + m"] Suc.prems by simp
  show ?case
  proof (cases "x = off + m")
    case True
    then show ?thesis using Suc.prems len old by simp
  next
    case False
    then show ?thesis using Suc.IH [of x] Suc.prems len by (auto simp: nth_list_update)
  qed
qed

lemma som_norm_single_map:
  assumes one: "som_nsom som = 1"
    and len: "length (som_c som) = som_nbin som * som_nbin som"
    and nonneg: "\<forall>x\<in>set (som_c som). 0 \<le> x"
    and ne: "som_c som \<noteq> []"
  shows "(\<forall>x\<in>set (som_c (som_norm som)). 0 \<le> x \<and> x \<le> 1)
    \<and> (Max (set (som_c (som_norm som))) = 0 \<or> Max (set (som_c (som_norm som))) = 1)"
proof -
  define c where "c = som_c som"
  define n2 where "n2 = som_nbin som * som_nbin som"
  define mx where "mx = Max (insert 0 (set c))"
  have n2: "n2 = length c" using len by (simp add: n2_def c_def)
  have mx_eq: "som_norm_max (length c) 0 c = mx"
    unfolding som_norm_max_def mx_def using norm_max_first_map [of "length c" c "length c" 0]
    by simp
  have mx_ge: "x \<le> mx" if "x \<in> set c" for x
    unfolding mx_def using that by (intro Max_ge) simp_all
  have mx0: "0 \<le> mx" unfolding mx_def by (intro Max_ge) simp_all
  have c': "som_c (som_norm som) = som_norm_map n2 0 c"
    by (simp add: som_norm_def one n2_def c_def)
  have map0: "som_norm_map n2 0 c =
      (if mx \<noteq> 0 then fold (\<lambda>i c. c[0 + i := c ! (0 + i) / mx]) [0..<length c] c else c)"
    by (simp add: som_norm_map_def n2 mx_eq Let_def)
  show ?thesis
  proof (cases "mx = 0")
    case True
    then have same: "som_c (som_norm som) = c" by (simp add: c' map0)
    have zero: "x = 0" if "x \<in> set c" for x
      using mx_ge [OF that] nonneg that True by (auto simp: c_def)
    have "set c = {0}" using zero ne by (auto simp: c_def neq_Nil_conv)
    then show ?thesis by (simp add: same)
  next
    case False
    then have pos: "0 < mx" using mx0 by simp
    have "mx \<in> insert 0 (set c)" unfolding mx_def by (intro Max_in) simp_all
    then have mx_in: "mx \<in> set c" using False by auto
    have nth: "som_c (som_norm som) ! x = c ! x / mx" if "x < length c" for x
      using norm_div_nth [of 0 "length c" c x mx] that False
      by (simp add: c' map0)
    have lenc: "length (som_c (som_norm som)) = length c"
      using False by (simp add: c' map0)
    have eq: "som_c (som_norm som) = map (\<lambda>x. x / mx) c"
      by (rule nth_equalityI) (simp_all add: lenc nth)
    have rng: "\<forall>x\<in>set (som_c (som_norm som)). 0 \<le> x \<and> x \<le> 1"
      unfolding eq using nonneg mx_ge pos by (auto simp: c_def)
    have "1 \<in> set (som_c (som_norm som))"
      unfolding eq using mx_in pos by (auto simp: image_iff intro!: bexI [of _ mx])
    then have "Max (set (som_c (som_norm som))) = 1"
      using rng by (intro Max_eqI) auto
    then show ?thesis using rng by simp
  qed
qed


subsection \<open>C8: the reservoirs\<close>

lemma length_fold_update [simp]:
  "length (fold (\<lambda>j a. a[f j := h j]) js arr) = length arr"
  by (induction js arbitrary: arr) simp_all

lemma length_store_row [simp]: "length (store_row n vals i arr) = length arr"
  unfolding store_row_def by simp

lemma store_row_nth:
  assumes "i * n + m \<le> length arr" "x < length arr"
  shows "fold (\<lambda>j a. a[i * n + j := vals ! j]) [0..<m] arr ! x =
    (if i * n \<le> x \<and> x < i * n + m then vals ! (x - i * n) else arr ! x)"
  using assms
proof (induction m)
  case 0
  then show ?case by auto
next
  case (Suc m)
  have len: "length (fold (\<lambda>j a. a[i * n + j := vals ! j]) [0..<m] arr) = length arr"
    by simp
  show ?case
  proof (cases "x = i * n + m")
    case True
    then show ?thesis using Suc.prems len by simp
  next
    case False
    then show ?thesis using Suc.IH Suc.prems len by (auto simp: nth_list_update)
  qed
qed

lemma slot_bounds:
  fixes cap :: int and r RAND_MAX :: nat
  assumes "0 < RAND_MAX" "r \<le> RAND_MAX" "0 < cap"
  defines "slot \<equiv> c_trunc (real_of_int (cap - 1) * real r / real RAND_MAX)"
  shows "0 \<le> slot" and "slot \<le> cap - 1" and "2 \<le> cap \<Longrightarrow> r < RAND_MAX \<Longrightarrow> slot < cap - 1"
proof -
  define x where "x = real_of_int (cap - 1) * real r / real RAND_MAX"
  have x0: "0 \<le> x" using assms(1,3) by (simp add: x_def)
  have ratio: "real r / real RAND_MAX \<le> 1" using assms(1,2) by simp
  have "x = real_of_int (cap - 1) * (real r / real RAND_MAX)" by (simp add: x_def)
  also have "\<dots> \<le> real_of_int (cap - 1) * 1"
    using ratio assms(3) by (intro mult_left_mono) simp_all
  finally have x1: "x \<le> real_of_int (cap - 1)" by simp
  have s: "slot = \<lfloor>x\<rfloor>" using x0 by (simp add: slot_def c_trunc_def x_def)
  show "0 \<le> slot" using x0 s by simp
  have "\<lfloor>x\<rfloor> \<le> \<lfloor>real_of_int (cap - 1)\<rfloor>" using x1 by (rule floor_mono)
  then show "slot \<le> cap - 1" using s by simp
  show "slot < cap - 1" if "2 \<le> cap" "r < RAND_MAX"
  proof -
    have "real r / real RAND_MAX < 1" using that(2) assms(1) by simp
    then have "real_of_int (cap - 1) * (real r / real RAND_MAX) < real_of_int (cap - 1) * 1"
      using that(1) by (intro mult_strict_left_mono) simp_all
    then have "x < real_of_int (cap - 1)" by (simp add: x_def)
    then show ?thesis using s by (simp add: floor_less_iff)
  qed
qed

lemma store_row_replaced:
  assumes "slot < cap" "length arr = cap * n"
  shows "slot_replaced n vals slot arr (store_row n vals slot arr)"
proof -
  have "Suc slot * n \<le> cap * n" using assms(1) by (intro mult_le_mono1) simp
  then have b: "slot * n + n \<le> length arr" using assms(2) by (simp add: add.commute)
  show ?thesis
    unfolding slot_replaced_def store_row_def
    using store_row_nth [OF b] by simp
qed

text \<open>
  C8, amended. Once a reservoir (fixed or learn) of capacity \<open>cap \<ge> 1\<close> is full, a further
  admitted vector replaces the slot \<open>floor ((cap - 1) * r / RAND_MAX)\<close>, where \<open>r\<close> is the
  value \<^verbatim>\<open>random()\<close> returns, \<open>0 \<le> r \<le> RAND_MAX\<close>; the other slots, the fill count and
  the other reservoir stay as they were. The slot is below \<open>cap\<close>; it is below
  \<open>cap - 1\<close>, so that the last slot is not the one replaced, when \<open>cap \<ge> 2\<close> and
  \<open>r < RAND_MAX\<close>.
\<close>

theorem reservoir_overflow_slot:
  assumes rm: "0 < RAND_MAX" and draw: "random (rng st) = (r, g')" and r: "r \<le> RAND_MAX"
    and nset: "row_nset row = args_nann args"
  shows "(IS_GOOD (row_mask row) \<and> 0 < fixed_max \<and> ngood_vals_fixed st = nat fixed_max
        \<and> length (good_vals_fixed st) = nat fixed_max * args_nann_som args \<longrightarrow>
      (let slot = nat (c_trunc (real_of_int (fixed_max - 1) * real r / real RAND_MAX));
           st' = sample_row RAND_MAX args fixed_max learn_max row st
       in slot_replaced (args_nann_som args) (row_vals row) slot
            (good_vals_fixed st) (good_vals_fixed st')
          \<and> ngood_vals_fixed st' = ngood_vals_fixed st
          \<and> good_vals_learn st' = good_vals_learn st
          \<and> slot < nat fixed_max
          \<and> (2 \<le> fixed_max \<and> r < RAND_MAX \<longrightarrow> slot < nat fixed_max - 1)))
    \<and> (\<not> IS_GOOD (row_mask row) \<and> args_filt_learn args = Some filt
        \<and> failed_filters filt (row_vals row) = 0
        \<and> 0 < learn_max \<and> ngood_vals_learn st = nat learn_max
        \<and> length (good_vals_learn st) = nat learn_max * args_nann_som args \<longrightarrow>
      (let slot = nat (c_trunc (real_of_int (learn_max - 1) * real r / real RAND_MAX));
           st' = sample_row RAND_MAX args fixed_max learn_max row st
       in slot_replaced (args_nann_som args) (row_vals row) slot
            (good_vals_learn st) (good_vals_learn st')
          \<and> ngood_vals_learn st' = ngood_vals_learn st
          \<and> good_vals_fixed st' = good_vals_fixed st
          \<and> slot < nat learn_max
          \<and> (2 \<le> learn_max \<and> r < RAND_MAX \<longrightarrow> slot < nat learn_max - 1)))"
proof -
  have slot: "reservoir_slot RAND_MAX cap (nat cap) (rng st) =
      (c_trunc (real_of_int (cap - 1) * real r / real RAND_MAX), nat cap, g')"
    if "0 < cap" for cap
    using that draw by (simp add: reservoir_slot_def)
  have bounds: "nat (c_trunc (real_of_int (cap - 1) * real r / real RAND_MAX)) < nat cap
      \<and> (2 \<le> cap \<and> r < RAND_MAX \<longrightarrow>
           nat (c_trunc (real_of_int (cap - 1) * real r / real RAND_MAX)) < nat cap - 1)"
    if "0 < cap" for cap
    using slot_bounds [OF rm r that] that by auto
  show ?thesis
  proof (intro conjI impI)
    assume h: "IS_GOOD (row_mask row) \<and> 0 < fixed_max \<and> ngood_vals_fixed st = nat fixed_max
        \<and> length (good_vals_fixed st) = nat fixed_max * args_nann_som args"
    then have cap: "0 < fixed_max" by simp
    have st': "sample_row RAND_MAX args fixed_max learn_max row st =
        st\<lparr>good_vals_fixed := store_row (args_nann_som args) (row_vals row)
              (nat (c_trunc (real_of_int (fixed_max - 1) * real r / real RAND_MAX)))
              (good_vals_fixed st),
           ngood_vals_fixed := nat fixed_max, rng := g'\<rparr>"
      using h nset slot [OF cap] by (simp add: sample_row_def)
    show "let slot = nat (c_trunc (real_of_int (fixed_max - 1) * real r / real RAND_MAX));
           st' = sample_row RAND_MAX args fixed_max learn_max row st
       in slot_replaced (args_nann_som args) (row_vals row) slot
            (good_vals_fixed st) (good_vals_fixed st')
          \<and> ngood_vals_fixed st' = ngood_vals_fixed st
          \<and> good_vals_learn st' = good_vals_learn st
          \<and> slot < nat fixed_max
          \<and> (2 \<le> fixed_max \<and> r < RAND_MAX \<longrightarrow> slot < nat fixed_max - 1)"
      unfolding Let_def st'
      using bounds [OF cap] h store_row_replaced [of _ "nat fixed_max" "good_vals_fixed st"]
      by simp
  next
    assume h: "\<not> IS_GOOD (row_mask row) \<and> args_filt_learn args = Some filt
        \<and> failed_filters filt (row_vals row) = 0
        \<and> 0 < learn_max \<and> ngood_vals_learn st = nat learn_max
        \<and> length (good_vals_learn st) = nat learn_max * args_nann_som args"
    then have cap: "0 < learn_max" by simp
    have st': "sample_row RAND_MAX args fixed_max learn_max row st =
        st\<lparr>good_vals_learn := store_row (args_nann_som args) (row_vals row)
              (nat (c_trunc (real_of_int (learn_max - 1) * real r / real RAND_MAX)))
              (good_vals_learn st),
           ngood_vals_learn := nat learn_max, rng := g'\<rparr>"
      using h nset slot [OF cap] by (simp add: sample_row_def)
    show "let slot = nat (c_trunc (real_of_int (learn_max - 1) * real r / real RAND_MAX));
           st' = sample_row RAND_MAX args fixed_max learn_max row st
       in slot_replaced (args_nann_som args) (row_vals row) slot
            (good_vals_learn st) (good_vals_learn st')
          \<and> ngood_vals_learn st' = ngood_vals_learn st
          \<and> good_vals_fixed st' = good_vals_fixed st
          \<and> slot < nat learn_max
          \<and> (2 \<le> learn_max \<and> r < RAND_MAX \<longrightarrow> slot < nat learn_max - 1)"
      unfolding Let_def st'
      using bounds [OF cap] h store_row_replaced [of _ "nat learn_max" "good_vals_learn st"]
      by simp
  qed
qed

theorem reservoir_overflow_slot_witness:
  "good_vals_fixed (sample_row 2147483647 args_two_annots 7 3 row_good sample_full) =
     [1 / 14, 2 / 14, 3 / 14, 4 / 14, 1 / 2, 1 / 4, 7 / 14,
      8 / 14, 9 / 14, 10 / 14, 11 / 14, 12 / 14, 13 / 14, 1]
   \<and> nat (c_trunc (real_of_int (7 - 1) * real 1000000000 / real 2147483647)) = 2
   \<and> good_vals_learn (sample_row 2147483647 args_learning 7 3 row_other sample_learn_full) =
     [1 / 6, 2 / 6, 3 / 4, 1 / 8, 5 / 6, 1]
   \<and> nat (c_trunc (real_of_int (3 - 1) * real 2000000000 / real 2147483647)) = 1"
proof -
  have passes: "failed_filters (the (args_filt_learn args_learning)) (row_vals row_other) = 0"
    by (simp add: args_learning_def args_two_annots_def row_other_def failed_filters_def
        filter_fails_def FLT_BT_def FLT_BE_def upt_rec numeral_2_eq_2)
  have fixed: "good_vals_fixed (sample_row 2147483647 args_two_annots 7 3 row_good sample_full) =
     [1 / 14, 2 / 14, 3 / 14, 4 / 14, 1 / 2, 1 / 4, 7 / 14,
      8 / 14, 9 / 14, 10 / 14, 11 / 14, 12 / 14, 13 / 14, 1]
   \<and> nat (c_trunc (real_of_int (7 - 1) * real 1000000000 / real 2147483647)) = 2"
    using reservoir_overflow_slot [where RAND_MAX = 2147483647 and st = sample_full
        and r = 1000000000 and g' = "\<lambda>n. 1000000000" and row = row_good
        and args = args_two_annots and fixed_max = 7 and learn_max = 3]
    by (simp add: sample_full_def row_good_def args_two_annots_def random_def IS_GOOD_def
        MASK_GOOD_def sample_row_def reservoir_slot_def store_row_def c_trunc_def upt_rec)
  have learn: "good_vals_learn (sample_row 2147483647 args_learning 7 3 row_other sample_learn_full) =
     [1 / 6, 2 / 6, 3 / 4, 1 / 8, 5 / 6, 1]
   \<and> nat (c_trunc (real_of_int (3 - 1) * real 2000000000 / real 2147483647)) = 1"
    using reservoir_overflow_slot [where RAND_MAX = 2147483647 and st = sample_learn_full
        and r = 2000000000 and g' = "\<lambda>n. 2000000000" and row = row_other
        and args = args_learning and fixed_max = 7 and learn_max = 3
        and filt = "the (args_filt_learn args_learning)"] passes
    by (simp add: sample_learn_full_def row_other_def args_learning_def args_two_annots_def
        random_def IS_GOOD_def MASK_GOOD_def sample_row_def reservoir_slot_def store_row_def
        c_trunc_def upt_rec)
  show ?thesis using fixed learn by simp
qed

text \<open>
  C8, as stated, fails: with capacity 1 (\<^verbatim>\<open>-n 2,0.5\<close>) the slot is \<open>0 = cap - 1\<close>, and
  the only slot, which is the last one, is replaced by every further good row; and with
  capacity 7 the draw \<open>r = RAND_MAX\<close> gives the slot \<open>6 = cap - 1\<close>.
\<close>

theorem reservoir_last_slot_replaced:
  "good_vals_fixed sample_one_full ! (1 - 1) = 3 / 10
   \<and> good_vals_fixed (sample_row 2147483647 args_one_annot 1 1 row_good_one sample_one_full) ! (1 - 1)
       = 7 / 10
   \<and> fst (reservoir_slot 2147483647 7 7 (\<lambda>n. 2147483647)) = 7 - 1"
  by (simp add: sample_one_full_def row_good_one_def args_one_annot_def random_def IS_GOOD_def
      MASK_GOOD_def sample_row_def reservoir_slot_def store_row_def c_trunc_def upt_rec)


subsection \<open>C1: the score of a site\<close>

text \<open>\<^verbatim>\<open>som_calc_dist\<close> returns the distance to the nearest active cell of all maps.\<close>

lemma xd_upd_HUGE [simp]: "xd_upd HUGE_VAL old = old" "xd_upd cand HUGE_VAL = cand"
  by (cases cand; simp add: xd_upd_def)+

lemma xd_upd_assoc: "xd_upd a (xd_upd b c) = xd_upd (xd_upd a b) c"
  by (cases a; cases b; cases c) (auto simp: xd_upd_def)

lemma xd_Min_nonempty: "ds \<noteq> [] \<Longrightarrow> xd_Min ds = Fin (Min (set ds))"
  by (cases ds) (simp_all add: xd_Min_def)

lemma xd_Min_append: "xd_upd (xd_Min ds2) (xd_Min ds1) = xd_Min (ds1 @ ds2)"
proof (cases "ds1 = [] \<or> ds2 = []")
  case True
  then show ?thesis by (auto simp: xd_Min_def split: list.splits)
next
  case False
  define A where "A = Min (set ds1)"
  define B where "B = Min (set ds2)"
  have "Min (set ds1 \<union> set ds2) = min A B"
    unfolding A_def B_def using False by (intro Min_Un) simp_all
  then have "xd_Min (ds1 @ ds2) = Fin (min A B)"
    using False by (simp add: xd_Min_nonempty)
  moreover have "xd_upd (xd_Min ds2) (xd_Min ds1) = Fin (min A B)"
    using False by (simp add: xd_Min_nonempty A_def [symmetric] B_def [symmetric] xd_upd_def min_def)
  ultimately show ?thesis by simp
qed

lemma xd_Min_single: "xd_Min [x] = Fin x"
  by (simp add: xd_Min_def)

lemma calc_cells:
  "fold (\<lambda>q. calc_cell kdim th vec w c) [0..<N] (md, cnt, cnt * kdim) =
    (xd_upd (xd_Min (map (\<lambda>q. sq_dist kdim vec w (q * kdim))
               (filter (\<lambda>q. th \<le> c ! q) [cnt..<cnt + N]))) md,
     cnt + N, (cnt + N) * kdim)"
proof (induction N)
  case 0
  show ?case by (simp add: xd_Min_def)
next
  case (Suc N)
  define M where "M = xd_Min (map (\<lambda>q. sq_dist kdim vec w (q * kdim))
               (filter (\<lambda>q. th \<le> c ! q) [cnt..<cnt + N]))"
  have key: "xd_upd (Fin x) (xd_upd (xd_Min ds) md) = xd_upd (xd_Min (ds @ [x])) md" for x ds
    by (simp only: xd_upd_assoc xd_Min_single [symmetric] xd_Min_append)
  have up: "[cnt..<cnt + Suc N] = [cnt..<cnt + N] @ [cnt + N]" by simp
  have "fold (\<lambda>q. calc_cell kdim th vec w c) [0..<Suc N] (md, cnt, cnt * kdim)
      = calc_cell kdim th vec w c
          (fold (\<lambda>q. calc_cell kdim th vec w c) [0..<N] (md, cnt, cnt * kdim))"
    by simp
  also have "\<dots> = calc_cell kdim th vec w c (xd_upd M md, cnt + N, (cnt + N) * kdim)"
    by (simp only: Suc.IH M_def)
  also have "\<dots> = (if th \<le> c ! (cnt + N)
        then xd_upd (Fin (sq_dist kdim vec w ((cnt + N) * kdim))) (xd_upd M md)
        else xd_upd M md, cnt + Suc N, (cnt + Suc N) * kdim)"
    by (simp add: calc_cell_def xd_upd_def Let_def algebra_simps)
  also have "\<dots> = (xd_upd (xd_Min (map (\<lambda>q. sq_dist kdim vec w (q * kdim))
               (filter (\<lambda>q. th \<le> c ! q) [cnt..<cnt + Suc N]))) md,
     cnt + Suc N, (cnt + Suc N) * kdim)"
    unfolding up filter_append map_append M_def by (simp add: key)
  finally show ?case .
qed

lemma calc_map_eq:
  "calc_map som vec (ms, cnt, cnt * som_kdim som) =
    (xd_upd (xd_Min (map (\<lambda>q. sq_dist (som_kdim som) vec (som_w som) (q * som_kdim som))
               (filter (\<lambda>q. som_th som \<le> som_c som ! q)
                  [cnt..<cnt + som_nbin som * som_nbin som]))) ms,
     cnt + som_nbin som * som_nbin som, (cnt + som_nbin som * som_nbin som) * som_kdim som)"
proof -
  have "fold (\<lambda>i. fold (\<lambda>j. calc_cell (som_kdim som) (som_th som) vec (som_w som) (som_c som))
                          [0..<som_nbin som])
               [0..<som_nbin som] (HUGE_VAL, cnt, cnt * som_kdim som)
      = fold (\<lambda>q. calc_cell (som_kdim som) (som_th som) vec (som_w som) (som_c som))
          [0..<som_nbin som * som_nbin som] (HUGE_VAL, cnt, cnt * som_kdim som)"
    by (rule fold_grid)
  then show ?thesis
    by (simp add: calc_map_def calc_cells xd_upd_def [symmetric])
qed

lemma calc_maps:
  "fold (\<lambda>js. calc_map som vec) [0..<m] (HUGE_VAL, 0, 0) =
    (xd_Min (map (\<lambda>q. sq_dist (som_kdim som) vec (som_w som) (q * som_kdim som))
               (filter (\<lambda>q. som_th som \<le> som_c som ! q)
                  [0..<m * (som_nbin som * som_nbin som)])),
     m * (som_nbin som * som_nbin som), m * (som_nbin som * som_nbin som) * som_kdim som)"
proof (induction m)
  case 0
  show ?case by (simp add: xd_Min_def)
next
  case (Suc m)
  define n2 where "n2 = som_nbin som * som_nbin som"
  define d where "d = (\<lambda>q. sq_dist (som_kdim som) vec (som_w som) (q * som_kdim som))"
  define A where "A = (\<lambda>q. som_th som \<le> som_c som ! q)"
  have split: "[0..<Suc m * n2] = [0..<m * n2] @ [m * n2..<m * n2 + n2]"
    using upt_add_eq_append [of 0 "m * n2" n2] by (simp add: add.commute)
  have "fold (\<lambda>js. calc_map som vec) [0..<Suc m] (HUGE_VAL, 0, 0)
      = calc_map som vec (fold (\<lambda>js. calc_map som vec) [0..<m] (HUGE_VAL, 0, 0))"
    by simp
  also have "\<dots> = calc_map som vec
      (xd_Min (map d (filter A [0..<m * n2])), m * n2, m * n2 * som_kdim som)"
    by (simp only: Suc.IH n2_def d_def A_def)
  also have "\<dots> = (xd_upd (xd_Min (map d (filter A [m * n2..<m * n2 + n2])))
        (xd_Min (map d (filter A [0..<m * n2]))),
      m * n2 + n2, (m * n2 + n2) * som_kdim som)"
    unfolding n2_def d_def A_def by (rule calc_map_eq)
  also have "\<dots> = (xd_Min (map d (filter A [0..<Suc m * n2])),
      Suc m * n2, Suc m * n2 * som_kdim som)"
    unfolding split filter_append map_append xd_Min_append by (simp add: add.commute)
  finally show ?case unfolding n2_def d_def A_def .
qed

lemma fold_add_sum_list:
  fixes a :: real
  shows "fold (\<lambda>k s. s + f k) xs a = a + sum_list (map f xs)"
  by (induction xs arbitrary: a) simp_all

lemma sq_dist_proto:
  "sq_dist (som_kdim som) vec (som_w som) (q * som_kdim som) = proto_sq_dist som vec q"
  by (simp add: sq_dist_def proto_sq_dist_def fold_add_sum_list power2_eq_square)

lemma som_calc_dist_nearest: "som_calc_dist som vec = nearest_active som vec"
  by (simp add: som_calc_dist_def calc_maps nearest_active_def active_cells_def sq_dist_proto)

lemma eval_scores_fold:
  "fst (fold (\<lambda>row (out, ngood, nall).
             case score_row f ictx args som row of
               None \<Rightarrow> (out, ngood, nall)
             | Some site \<Rightarrow>
                 (out @ [site], if IS_GOOD (row_mask row) then ngood + 1 else ngood, nall + 1))
       rows (out0, ng0, na0))
    = out0 @ List.map_filter (score_row f ictx args som) rows"
  by (induction rows arbitrary: out0 ng0 na0)
    (simp_all add: List.map_filter_simps split: option.splits)

lemma eval_scores_out:
  "fst (eval_scores f ictx args som rows) = List.map_filter (score_row f ictx args som) rows"
  unfolding eval_scores_def eval_scores_fold by simp

lemma score_of_row:
  "map fst (List.map_filter (score_row f ictx args som) rows) =
    map (\<lambda>row. xd_div (som_calc_dist som (row_vals row)) (real (som_kdim som)))
      (filter (\<lambda>row. row_nset row = args_nann args) rows)"
  by (induction rows) (simp_all add: List.map_filter_simps score_row_def Let_def)

text \<open>
  C1, amended. The scores written to the sites file are, in the order of the table, one
  for each row that has all model annotations: the squared Euclidean distance from the row's
  scaled annotation vector to the nearest prototype among the cells, of all maps, whose
  normalised count is at least the activation threshold (\<^verbatim>\<open>HUGE_VAL\<close> when there is none),
  divided by the number \<open>kdim\<close> of model annotations.
\<close>

theorem eval_filters_score:
  assumes "0 < som_kdim good_som"
  shows "map fst (fst (eval_scores bcf_acgt2int indel_ctx args good_som rows)) =
    map (\<lambda>row. xd_div (nearest_active good_som (row_vals row)) (real (som_kdim good_som)))
      (filter (\<lambda>row. row_nset row = args_nann args) rows)"
  by (simp only: eval_scores_out score_of_row som_calc_dist_nearest)

theorem eval_filters_score_witness:
  "map fst (fst (eval_scores (\<lambda>ch. 0) None args_two_annots som_two_dim
      [row_good, row_good\<lparr>row_nset := 1\<rparr>])) = [Fin (5 / 32)]"
  using eval_filters_score [of som_two_dim "\<lambda>ch. 0" None args_two_annots
      "[row_good, row_good\<lparr>row_nset := 1\<rparr>]"]
  by (simp add: som_two_dim_def args_two_annots_def row_good_def nearest_active_def
      active_cells_def proto_sq_dist_def xd_Min_def upt_rec power2_eq_square)

text \<open>
  C1, as stated, fails: the score written is \<^verbatim>\<open>dist/max_dist\<close> with
  \<^verbatim>\<open>max_dist = good_som->kdim\<close>, not the value \<^verbatim>\<open>som_calc_dist\<close> returns. With two
  annotations and the only active prototype \<open>[0, 0]\<close>, the row \<open>[1/2, 1/4]\<close> is at squared
  distance \<open>5/16\<close> and its score is \<open>5/32\<close>.
\<close>

theorem eval_filters_score_rescaled:
  "som_calc_dist som_two_dim (row_vals row_good) = Fin (5 / 16)
   \<and> map fst (fst (eval_scores (\<lambda>ch. 0) None args_two_annots som_two_dim [row_good]))
       = [Fin (5 / 32)]"
  by (simp add: eval_scores_def score_row_def som_calc_dist_def calc_map_def calc_cell_def
      sq_dist_def som_two_dim_def args_two_annots_def row_good_def Let_def upt_rec)


subsection \<open>C3: the number of hard filters\<close>

lemmas init_filters_eval =
  init_filters_def add_filter_def find_annot_def parse_op_def is_cmp_char_def c_isspace_def
  scan_unsigned_def sizeof_uint64_t_def NFIXED_def FLT_LE_def FLT_LT_def FLT_EQ_def FLT_BT_def
  FLT_BE_def Let_def upt_rec

text \<open>
  C3. The claim: an expression with at most 63 predicates is parsed, and more than 63 are
  fatal. The test at the end of \<^verbatim>\<open>init_filters\<close> is
  \<^verbatim>\<open>filts->ntot > sizeof(uint64_t)-1\<close>, and \<^verbatim>\<open>sizeof(uint64_t)\<close> is 8 (bytes): more than 7
  predicates are fatal. An expression with eight predicates over the two annotations of
  the table ends in the error; one with seven is parsed, with its seven descriptions.
\<close>

theorem init_filters_eight_terms:
  "init_filters scan_unsigned args_two_annots
     ''QUAL>1 & QUAL<100 & DP>2 & DP<90 & QUAL>=3 & DP>=4 & QUAL<=80 & DP<=70'' False
     = Inl (TooManyHardFilters 8)
   \<and> map_sum id (\<lambda>(args, filts). (flts_ntot filts, flts_nfilt filts, flts_flt_mask_desc filts))
       (init_filters scan_unsigned args_two_annots
          ''QUAL>1 & QUAL<100 & DP>2 & DP<90 & QUAL>=3 & DP>=4 & 80>=QUAL'' False)
     = Inr (7, [4, 3], [''QUAL>1'', ''QUAL<100'', ''DP>2'', ''DP<90'', ''QUAL>=3'', ''DP>=4'', ''80>=QUAL''])"
  by (simp add: init_filters_eval args_two_annots_def numeral_2_eq_2)

text \<open>No expression with more than seven predicates is parsed.\<close>

lemma init_filters_limit:
  assumes "init_filters scan_le args str scale = Inr (args', filts)"
  shows "flts_ntot filts \<le> 7"
  using assms
  by (auto simp: init_filters_def sizeof_uint64_t_def Let_def split: sum.splits prod.splits if_splits)


end
